theory Spec2Isabelle
  imports Main "HOL-Library.Multiset"
begin

section \<open>The art gallery script\<close>

text \<open>
  The source file \<^verbatim>\<open>art/script.js\<close> holds two versions of the class \<^verbatim>\<open>ArtGallery\<close>.
  The first reads a static descriptor (\<^verbatim>\<open>../metadata.json\<close>) and falls back to
  \<^verbatim>\<open>loadImagesFromDirectory\<close>; the second lists the \<^verbatim>\<open>images\<close> folder through the
  hosting API, reads the tags embedded in each image and falls back to probing a fixed list
  of file names. \<^verbatim>\<open>sortImages\<close>, \<^verbatim>\<open>renderGallery\<close> and \<^verbatim>\<open>formatDate\<close> are the same in both.
  Methods that exist in both versions under one name and differ are suffixed here
  (\<open>init_metadata\<close> for the first version's \<^verbatim>\<open>init\<close>).

  Strings are lists of characters. The regular expressions of the script have no \<^verbatim>\<open>u\<close> flag,
  so \<^verbatim>\<open>\w\<close>, \<^verbatim>\<open>\d\<close> and \<^verbatim>\<open>\b\<close> look at ASCII only and every other code unit is an
  ordinary character for them, which is how a \<^typ>\<open>char\<close> outside the ASCII ranges behaves
  below.
\<close>

subsection \<open>Characters and strings\<close>

definition is_digit :: "char \<Rightarrow> bool" where
  "is_digit c = (48 \<le> (of_char c :: nat) \<and> (of_char c :: nat) \<le> 57)"

definition is_word_char :: "char \<Rightarrow> bool" where
  "is_word_char c =
     (let n = (of_char c :: nat)
      in (97 \<le> n \<and> n \<le> 122) \<or> (65 \<le> n \<and> n \<le> 90) \<or> (48 \<le> n \<and> n \<le> 57) \<or> c = CHR ''_'')"

definition toUpperCase_char :: "char \<Rightarrow> char" where
  "toUpperCase_char c =
     (let n = (of_char c :: nat) in if 97 \<le> n \<and> n \<le> 122 then char_of (n - 32) else c)"

definition toLowerCase_char :: "char \<Rightarrow> char" where
  "toLowerCase_char c =
     (let n = (of_char c :: nat) in if 65 \<le> n \<and> n \<le> 90 then char_of (n + 32) else c)"

definition toUpperCase :: "string \<Rightarrow> string" where
  "toUpperCase s = map toUpperCase_char s"

text \<open>\<^verbatim>\<open>toLowerCase\<close> on the ASCII letters; other characters are left as they are.\<close>

definition toLowerCase :: "string \<Rightarrow> string" where
  "toLowerCase s = map toLowerCase_char s"

text \<open>\<^verbatim>\<open>s.lastIndexOf(c)\<close>: the last index of \<open>c\<close>, or \<open>-1\<close>.\<close>

definition lastIndexOf :: "string \<Rightarrow> char \<Rightarrow> int" where
  "lastIndexOf s c =
     (case filter (\<lambda>i. s ! i = c) (rev [0..<length s]) of [] \<Rightarrow> - 1 | i # _ \<Rightarrow> int i)"

text \<open>\<^verbatim>\<open>s.substring(start)\<close>: a negative start counts as 0, one past the end as the length.\<close>

definition substring :: "string \<Rightarrow> int \<Rightarrow> string" where
  "substring s start = drop (nat (max 0 start)) s"

definition includes_str :: "'a list \<Rightarrow> 'a \<Rightarrow> bool" where
  "includes_str xs x = (x \<in> set xs)"

subsection \<open>Regular-expression replacement\<close>

text \<open>
  A pattern is a matcher: given the character before the current position (\<open>None\<close> at the
  start of the input) and the rest of the input, it returns the length of the match that
  starts here, if there is one. No pattern of the script matches the empty string.
  \<open>replace_all\<close> is \<^verbatim>\<open>String.prototype.replace\<close> with a \<^verbatim>\<open>g\<close> pattern, \<open>replace_first\<close>
  without: matches are looked for from left to right on the input and do not overlap.
\<close>

type_synonym regex = "char option \<Rightarrow> string \<Rightarrow> nat option"

fun replace_all :: "regex \<Rightarrow> (string \<Rightarrow> string) \<Rightarrow> char option \<Rightarrow> string \<Rightarrow> string" where
  "replace_all re f prev [] = []"
| "replace_all re f prev (c # cs) =
     (case re prev (c # cs) of
        None \<Rightarrow> c # replace_all re f (Some c) cs
      | Some 0 \<Rightarrow> c # replace_all re f (Some c) cs
      | Some (Suc n) \<Rightarrow>
          f (take (Suc n) (c # cs)) @ replace_all re f (Some (last (c # take n cs))) (drop n cs))"

fun replace_first :: "regex \<Rightarrow> (string \<Rightarrow> string) \<Rightarrow> char option \<Rightarrow> string \<Rightarrow> string" where
  "replace_first re f prev [] = []"
| "replace_first re f prev (c # cs) =
     (case re prev (c # cs) of
        None \<Rightarrow> c # replace_first re f (Some c) cs
      | Some 0 \<Rightarrow> c # replace_first re f (Some c) cs
      | Some (Suc n) \<Rightarrow> f (take (Suc n) (c # cs)) @ drop n cs)"

text \<open>\<^verbatim>\<open>/[-_]/\<close>\<close>

definition re_dash_underscore :: regex where
  "re_dash_underscore prev s =
     (case s of [] \<Rightarrow> None
      | c # cs \<Rightarrow> if c = CHR ''-'' \<or> c = CHR ''_'' then Some 1 else None)"

text \<open>\<^verbatim>\<open>/\b\w/\<close>: a word character that does not follow a word character.\<close>

definition re_word_start :: regex where
  "re_word_start prev s =
     (case s of [] \<Rightarrow> None
      | c # cs \<Rightarrow>
          if is_word_char c \<and> \<not> (case prev of None \<Rightarrow> False | Some p \<Rightarrow> is_word_char p)
          then Some 1 else None)"

text \<open>\<^verbatim>\<open>/\d+/\<close>: the longest run of digits that starts here.\<close>

definition re_digits :: regex where
  "re_digits prev s = (let n = length (takeWhile is_digit s) in if n = 0 then None else Some n)"

text \<open>\<^verbatim>\<open>/:/\<close>\<close>

definition re_colon :: regex where
  "re_colon prev s = (case s of [] \<Rightarrow> None | c # cs \<Rightarrow> if c = CHR '':'' then Some 1 else None)"

text \<open>\<^verbatim>\<open>/-(\d{2}:\d{2}:\d{2})/\<close>\<close>

definition re_dash_time :: regex where
  "re_dash_time prev s =
     (case s of
        d # h1 # h2 # c1 # m1 # m2 # c2 # s1 # s2 # rest \<Rightarrow>
          if d = CHR ''-'' \<and> is_digit h1 \<and> is_digit h2 \<and> c1 = CHR '':'' \<and> is_digit m1
             \<and> is_digit m2 \<and> c2 = CHR '':'' \<and> is_digit s1 \<and> is_digit s2
          then Some 9 else None
      | _ \<Rightarrow> None)"

text \<open>\<^verbatim>\<open>/\.[^/.]+$/\<close>: a dot followed, up to the end, by one or more characters other than
  \<^verbatim>\<open>/\<close> and \<^verbatim>\<open>.\<close>.\<close>

definition re_extension :: regex where
  "re_extension prev s =
     (case s of [] \<Rightarrow> None
      | c # cs \<Rightarrow>
          if c = CHR ''.'' \<and> cs \<noteq> [] \<and> (\<forall>x\<in>set cs. x \<noteq> CHR ''/'' \<and> x \<noteq> CHR ''.'')
          then Some (length s) else None)"

subsection \<open>Titles and file extensions\<close>

definition generateTitle :: "string \<Rightarrow> string" where
  "generateTitle filename =
     replace_all re_digits (\<lambda>m. CHR ''#'' # m) None
       (replace_all re_word_start toUpperCase None
          (replace_all re_dash_underscore (\<lambda>m. '' '') None filename))"

text \<open>\<^verbatim>\<open>file.name.replace(/\.[^/.]+$/, "")\<close>\<close>

definition strip_extension :: "string \<Rightarrow> string" where
  "strip_extension name = replace_first re_extension (\<lambda>m. []) None name"

definition imageExtensions :: "string list" where
  "imageExtensions = [''.jpg'', ''.jpeg'', ''.png'', ''.gif'', ''.webp'']"

text \<open>The callback of \<^verbatim>\<open>files.filter\<close> in \<^verbatim>\<open>loadImagesFromGitHub\<close>.\<close>

definition image_file_filter :: "string \<Rightarrow> bool" where
  "image_file_filter name =
     (let ext = substring (toLowerCase name) (lastIndexOf name (CHR ''.''))
      in includes_str imageExtensions ext)"

text \<open>
  The title as section 4.3 of the specification words it: every \<^verbatim>\<open>-\<close> and \<^verbatim>\<open>_\<close> becomes a
  space, the first character of each word is capitalised, and every run of digits gets a
  \<^verbatim>\<open>#\<close> in front. A word is a maximal run of letters, digits and underscores.
\<close>

definition dash_to_space :: "char \<Rightarrow> char" where
  "dash_to_space c = (if c = CHR ''-'' \<or> c = CHR ''_'' then CHR '' '' else c)"

fun capitalize_words :: "bool \<Rightarrow> string \<Rightarrow> string" where
  "capitalize_words in_word [] = []"
| "capitalize_words in_word (c # cs) =
     (if is_word_char c \<and> \<not> in_word then toUpperCase_char c else c)
       # capitalize_words (is_word_char c) cs"

fun hash_digit_runs :: "bool \<Rightarrow> string \<Rightarrow> string" where
  "hash_digit_runs in_run [] = []"
| "hash_digit_runs in_run (c # cs) =
     (if is_digit c \<and> \<not> in_run then [CHR ''#'', c] else [c]) @ hash_digit_runs (is_digit c) cs"

definition title_spec :: "string \<Rightarrow> string" where
  "title_spec s = hash_digit_runs False (capitalize_words False (map dash_to_space s))"

subsection \<open>JavaScript values\<close>

datatype error = TypeError | Error

text \<open>
  How a call ends: it returns, it throws, or, for an asynchronous method, a promise it
  awaits is never settled and the method never completes (\<open>Pending\<close>). The state paired
  with \<open>Pending\<close> is the state of the object at that moment. A method that awaits another
  passes on the other two of its callee (\<open>abrupt\<close> in the definitions below) unless it
  catches the exception.
\<close>

datatype completion = Normal | Throw error | Pending

text \<open>
  A property that holds a string or \<^verbatim>\<open>undefined\<close> is a \<^typ>\<open>string option\<close>. The value of
  \<^verbatim>\<open>dateObj\<close> is \<^verbatim>\<open>null\<close> or a \<^verbatim>\<open>Date\<close> object; a \<^verbatim>\<open>Date\<close> is its time value in
  milliseconds, \<open>None\<close> when the time value is \<^verbatim>\<open>NaN\<close> (an Invalid Date).
\<close>

datatype date_value = DNull | DDate "int option"

definition truthy :: "string option \<Rightarrow> bool" where
  "truthy v = (case v of None \<Rightarrow> False | Some s \<Rightarrow> s \<noteq> [])"

text \<open>\<^verbatim>\<open>a || b\<close>\<close>

definition js_or :: "string option \<Rightarrow> string option \<Rightarrow> string option" where
  "js_or a b = (if truthy a then a else b)"

text \<open>\<^verbatim>\<open>ToString\<close> and \<^verbatim>\<open>ToNumber\<close> (\<open>None\<close> is \<^verbatim>\<open>NaN\<close>); a \<^verbatim>\<open>Date\<close> converts to its time
  value, \<^verbatim>\<open>null\<close> to 0.\<close>

definition to_string :: "string option \<Rightarrow> string" where
  "to_string v = (case v of None \<Rightarrow> ''undefined'' | Some s \<Rightarrow> s)"

definition to_number :: "date_value \<Rightarrow> int option" where
  "to_number d = (case d of DNull \<Rightarrow> Some 0 | DDate t \<Rightarrow> t)"

text \<open>
  \<^verbatim>\<open>x - y\<close> on numbers. Time values are integers; only the sign of a difference is used
  below, and the sign of the rounded difference is the sign of the exact one.
\<close>

definition js_minus :: "int option \<Rightarrow> int option \<Rightarrow> int option" where
  "js_minus x y = (case (x, y) of (Some a, Some b) \<Rightarrow> Some (a - b) | _ \<Rightarrow> None)"

subsection \<open>Image records and the gallery\<close>

text \<open>
  \<open>dimensions\<close> is the pair that the script prints as \<^verbatim>\<open>W x H\<close>; the first version's
  records have none. Properties of a descriptor entry that the script never reads are
  left out.
\<close>

record image =
  filename :: string
  title :: "string option"
  src :: string
  dateObj :: date_value
  description :: "string option"
  camera :: "string option"
  software :: "string option"
  dimensions :: "(nat \<times> nat) option"

text \<open>The children of the \<^verbatim>\<open>gallery\<close> element: cards, or the panel of \<^verbatim>\<open>showInstructions\<close>.\<close>

datatype node = Instructions | Artwork image

text \<open>The methods that acquire images, in the order they are entered.\<close>

datatype call = LoadMetadata | LoadImagesFromDirectory | LoadImagesFromGitHub | LoadImagesFallback

text \<open>
  The object and the part of the page it writes: the children of \<^verbatim>\<open>#gallery\<close>, the text
  and visibility of \<^verbatim>\<open>#loading\<close>, the class \<^verbatim>\<open>loaded\<close>, and whether
  \<^verbatim>\<open>setupEventListeners\<close> has run. \<open>calls\<close> is a log kept for the proofs.
\<close>

record artGallery =
  images :: "image list"
  currentSort :: string
  gallery :: "node list"
  loading_text :: string
  loading_hidden :: bool
  gallery_loaded :: bool
  listening :: bool
  calls :: "call list"

text \<open>The constructor, on a page whose \<^verbatim>\<open>#loading\<close> element shows \<open>txt\<close>.\<close>

definition constructor :: "string \<Rightarrow> artGallery" where
  "constructor txt =
     \<lparr>images = [], currentSort = ''date'', gallery = [], loading_text = txt,
      loading_hidden = False, gallery_loaded = False, listening = False, calls = []\<rparr>"

subsection \<open>The environment\<close>

record exif_tags =
  DateTimeOriginal :: "string option"
  DateTime :: "string option"
  DateTimeDigitized :: "string option"
  ImageDescription :: "string option"
  XPTitle :: "string option"
  XPSubject :: "string option"
  XPComment :: "string option"
  UserComment :: "string option"
  Make :: "string option"
  Model :: "string option"
  Software :: "string option"
  ProcessingSoftware :: "string option"

text \<open>
  What reading the tags of a loaded image comes to: the library could not be loaded, the
  call \<^verbatim>\<open>EXIF.getData\<close> throws, or the tags are read. A read that never calls back is not
  modelled.
\<close>

datatype exif_outcome = ExifUnavailable | ExifThrows | ExifTags exif_tags

record loaded_image =
  naturalWidth :: nat
  naturalHeight :: nat
  exif :: exif_outcome

text \<open>An entry of \<^verbatim>\<open>metadata.images\<close> and an entry of the directory listing.\<close>

record raw_image =
  raw_filename :: string
  raw_title :: "string option"
  raw_date :: "string option"

text \<open>
  What fetching and parsing \<^verbatim>\<open>../metadata.json\<close> comes to: the request fails, the body is
  not JSON, or a document is parsed. \<open>Parsed\<close> holds the list \<^verbatim>\<open>metadata.images\<close>, and
  \<open>None\<close> when the parsed document has no list of entries to map over, so that evaluating
  \<^verbatim>\<open>metadata.images.map(...)\<close> throws: there is no \<^verbatim>\<open>images\<close> property (the document
  \<^verbatim>\<open>{}\<close>, for one), it is not an array, or one of its elements is \<^verbatim>\<open>null\<close>.
\<close>

datatype descriptor = FetchFails | ParseFails | Parsed "raw_image list option"

record github_file =
  name :: string
  sha :: "string option"

text \<open>
  Everything outside the script: what reading \<^verbatim>\<open>../metadata.json\<close> comes to, the
  directory listing (\<open>None\<close> when the request fails, is not \<^verbatim>\<open>ok\<close> or is not a list of
  files), the result of loading an image by its \<^verbatim>\<open>src\<close> (\<open>None\<close> is \<^verbatim>\<open>onerror\<close>), the
  clock, the engine's \<^verbatim>\<open>Date.parse\<close> (\<open>None\<close> is \<^verbatim>\<open>NaN\<close>) and its \<^verbatim>\<open>localeCompare\<close>.
\<close>

record env =
  metadata_json :: descriptor
  github_contents :: "github_file list option"
  load_image :: "string \<Rightarrow> loaded_image option"
  date_now :: int
  date_parse :: "string \<Rightarrow> int option"
  localeCompare :: "string \<Rightarrow> string \<Rightarrow> int"

text \<open>\<^verbatim>\<open>new Date(v)\<close> for a string or \<^verbatim>\<open>undefined\<close>, and \<^verbatim>\<open>new Date()\<close>.\<close>

definition new_Date :: "env \<Rightarrow> string option \<Rightarrow> date_value" where
  "new_Date e v = (case v of None \<Rightarrow> DDate None | Some s \<Rightarrow> DDate (date_parse e s))"

definition new_Date_now :: "env \<Rightarrow> date_value" where
  "new_Date_now e = DDate (Some (date_now e))"

subsection \<open>Sorting\<close>

text \<open>
  \<^verbatim>\<open>Array.prototype.sort\<close> with a comparison function. A result of \<^verbatim>\<open>NaN\<close> counts as 0
  (\<open>SortCompare\<close>); a comparison that throws ends the sort and leaves the array as it was.

  The language standard fixes the result of the sort only for a comparison function that
  is consistent and does not throw: the elements in the order of the comparison, equal
  ones in their former order. For such a comparison the insertion sort below computes
  that result, as every conforming engine does. For a comparison that returns \<^verbatim>\<open>NaN\<close> or
  throws, the standard leaves the sequence of calls and the resulting order to the
  engine: the functions below are then one admissible engine, which hands the comparison
  the earlier element first, and another engine may call it in another order and may end
  with another order or completion. The ordering and idempotence theorems are therefore
  stated for lists on which the comparison is consistent and does not throw.
\<close>

definition SortCompare :: "('a \<Rightarrow> 'a \<Rightarrow> error + int option) \<Rightarrow> 'a \<Rightarrow> 'a \<Rightarrow> error + int" where
  "SortCompare comparefn x y =
     (case comparefn x y of
        Inl err \<Rightarrow> Inl err
      | Inr None \<Rightarrow> Inr 0
      | Inr (Some v) \<Rightarrow> Inr v)"

fun insert_cmp :: "('a \<Rightarrow> 'a \<Rightarrow> error + int) \<Rightarrow> 'a \<Rightarrow> 'a list \<Rightarrow> error + 'a list" where
  "insert_cmp c x [] = Inr [x]"
| "insert_cmp c x (y # ys) =
     (case c x y of
        Inl err \<Rightarrow> Inl err
      | Inr v \<Rightarrow>
          if v \<le> 0 then Inr (x # y # ys)
          else (case insert_cmp c x ys of Inl err \<Rightarrow> Inl err | Inr zs \<Rightarrow> Inr (y # zs)))"

fun array_sort :: "('a \<Rightarrow> 'a \<Rightarrow> error + int) \<Rightarrow> 'a list \<Rightarrow> error + 'a list" where
  "array_sort c [] = Inr []"
| "array_sort c (x # xs) =
     (case array_sort c xs of Inl err \<Rightarrow> Inl err | Inr ys \<Rightarrow> insert_cmp c x ys)"

text \<open>\<^verbatim>\<open>(a, b) => b.dateObj - a.dateObj\<close>\<close>

definition compare_date :: "image \<Rightarrow> image \<Rightarrow> error + int option" where
  "compare_date a b = Inr (js_minus (to_number (dateObj b)) (to_number (dateObj a)))"

text \<open>\<^verbatim>\<open>(a, b) => a.title.localeCompare(b.title)\<close>: a \<^verbatim>\<open>TypeError\<close> when \<^verbatim>\<open>a.title\<close> is
  \<^verbatim>\<open>undefined\<close>.\<close>

definition compare_name :: "env \<Rightarrow> image \<Rightarrow> image \<Rightarrow> error + int option" where
  "compare_name e a b =
     (case title a of
        None \<Rightarrow> Inl TypeError
      | Some s \<Rightarrow> Inr (Some (localeCompare e s (to_string (title b)))))"

definition sortImages :: "env \<Rightarrow> string \<Rightarrow> artGallery \<Rightarrow> completion \<times> artGallery" where
  "sortImages e sortType this =
     (let this1 = this\<lparr>currentSort := sortType\<rparr>
      in if sortType = ''date'' then
           (case array_sort (SortCompare compare_date) (images this1) of
              Inl err \<Rightarrow> (Throw err, this1)
            | Inr arr \<Rightarrow> (Normal, this1\<lparr>images := arr\<rparr>))
         else if sortType = ''name'' then
           (case array_sort (SortCompare (compare_name e)) (images this1) of
              Inl err \<Rightarrow> (Throw err, this1)
            | Inr arr \<Rightarrow> (Normal, this1\<lparr>images := arr\<rparr>))
         else (Normal, this1))"

subsection \<open>Rendering\<close>

text \<open>
  \<^verbatim>\<open>formatDate\<close> calls \<^verbatim>\<open>toLocaleDateString\<close> on its argument, which throws a
  \<^verbatim>\<open>TypeError\<close> on \<^verbatim>\<open>null\<close>. The text it returns is the engine's; the result here is the
  time value that is formatted.
\<close>

definition formatDate :: "date_value \<Rightarrow> error + int option" where
  "formatDate d = (case d of DNull \<Rightarrow> Inl TypeError | DDate t \<Rightarrow> Inr t)"

text \<open>The \<^verbatim>\<open>forEach\<close> of \<^verbatim>\<open>renderGallery\<close>: one card per image, appended in order.\<close>

fun render_cards :: "image list \<Rightarrow> node list \<Rightarrow> completion \<times> node list" where
  "render_cards [] children = (Normal, children)"
| "render_cards (img # rest) children =
     (case formatDate (dateObj img) of
        Inl err \<Rightarrow> (Throw err, children)
      | Inr t \<Rightarrow> render_cards rest (children @ [Artwork img]))"

definition renderGallery :: "artGallery \<Rightarrow> completion \<times> artGallery" where
  "renderGallery this =
     (let this1 = this\<lparr>gallery := []\<rparr>
      in if length (images this1) = 0 then
           (Normal, this1\<lparr>loading_text := ''No artwork found. Please add images and metadata.json''\<rparr>)
         else
           (case render_cards (images this1) (gallery this1) of
              (Normal, children) \<Rightarrow>
                (Normal, this1\<lparr>gallery := children, loading_hidden := True, gallery_loaded := True\<rparr>)
            | (abrupt, children) \<Rightarrow> (abrupt, this1\<lparr>gallery := children\<rparr>)))"

definition showInstructions :: "artGallery \<Rightarrow> artGallery" where
  "showInstructions this = this\<lparr>gallery := [Instructions]\<rparr>"

definition setupEventListeners :: "artGallery \<Rightarrow> artGallery" where
  "setupEventListeners this = this\<lparr>listening := True\<rparr>"

subsection \<open>The version that reads \<^verbatim>\<open>metadata.json\<close>\<close>

definition loadImagesFromDirectory :: "artGallery \<Rightarrow> completion \<times> artGallery" where
  "loadImagesFromDirectory this =
     renderGallery (this\<lparr>calls := calls this @ [LoadImagesFromDirectory], images := []\<rparr>)"

text \<open>The callback of \<^verbatim>\<open>metadata.images.map\<close>.\<close>

definition image_of_raw :: "env \<Rightarrow> raw_image \<Rightarrow> image" where
  "image_of_raw e img =
     \<lparr>filename = raw_filename img, title = raw_title img,
      src = ''../images/'' @ raw_filename img, dateObj = new_Date e (raw_date img),
      description = None, camera = None, software = None, dimensions = None\<rparr>"

text \<open>
  Everything up to the sort is inside the \<^verbatim>\<open>try\<close>: a failed fetch, a failed parse, a
  document without a list of images and a throwing sort all end in the \<^verbatim>\<open>catch\<close>. The
  \<^verbatim>\<open>catch\<close> calls \<^verbatim>\<open>loadImagesFromDirectory\<close> without awaiting it: whatever that call
  does, \<^verbatim>\<open>loadMetadata\<close> itself completes normally.
\<close>

definition loadMetadata :: "env \<Rightarrow> artGallery \<Rightarrow> completion \<times> artGallery" where
  "loadMetadata e this =
     (let this0 = this\<lparr>calls := calls this @ [LoadMetadata]\<rparr>
      in case metadata_json e of
           FetchFails \<Rightarrow> (Normal, snd (loadImagesFromDirectory this0))
         | ParseFails \<Rightarrow> (Normal, snd (loadImagesFromDirectory this0))
         | Parsed None \<Rightarrow> (Normal, snd (loadImagesFromDirectory this0))
         | Parsed (Some entries) \<Rightarrow>
             (case sortImages e ''date'' (this0\<lparr>images := map (image_of_raw e) entries\<rparr>) of
                (Normal, this1) \<Rightarrow> (Normal, this1)
              | (Throw err, this1) \<Rightarrow> (Normal, snd (loadImagesFromDirectory this1))
              | (Pending, this1) \<Rightarrow> (Pending, this1)))"

definition init_metadata :: "env \<Rightarrow> artGallery \<Rightarrow> completion \<times> artGallery" where
  "init_metadata e this =
     (case loadMetadata e this of
        (Normal, this1) \<Rightarrow>
          (case renderGallery this1 of
             (Normal, this2) \<Rightarrow> (Normal, setupEventListeners this2)
           | (abrupt, this2) \<Rightarrow> (abrupt, this2))
      | (abrupt, this1) \<Rightarrow> (abrupt, this1))"

subsection \<open>The version that reads embedded tags\<close>

text \<open>
  The object that \<^verbatim>\<open>extractImageMetadata\<close> resolves to: the empty object when the tag
  library is not available (\<open>None\<close> below), otherwise an object with these five
  properties, \<open>md_dateObj\<close> being \<^verbatim>\<open>null\<close> unless a date tag is found.
\<close>

record metadata =
  md_dateObj :: date_value
  md_title :: "string option"
  md_description :: "string option"
  md_camera :: "string option"
  md_software :: "string option"

text \<open>\<^verbatim>\<open>dateTaken.replace(/:/g, '-').replace(/-(\d{2}:\d{2}:\d{2})/, ' $1')\<close>\<close>

definition reformat_date :: "string \<Rightarrow> string" where
  "reformat_date dateTaken =
     replace_first re_dash_time (\<lambda>m. CHR '' '' # tl m) None
       (replace_all re_colon (\<lambda>m. ''-'') None dateTaken)"

text \<open>
  The branch for \<^verbatim>\<open>.png\<close> sources draws the image on a canvas inside its own
  \<^verbatim>\<open>try\<close> and changes nothing in the result.
\<close>

definition extractImageMetadata :: "env \<Rightarrow> loaded_image \<Rightarrow> string \<Rightarrow> error + metadata option" where
  "extractImageMetadata e img source =
     (case exif img of
        ExifUnavailable \<Rightarrow> Inr None
      | ExifThrows \<Rightarrow> Inl Error
      | ExifTags allTags \<Rightarrow>
          (let dateTaken = js_or (js_or (DateTimeOriginal allTags) (DateTime allTags))
                             (DateTimeDigitized allTags)
           in Inr (Some
             \<lparr>md_dateObj =
                (if truthy dateTaken then new_Date e (Some (reformat_date (to_string dateTaken)))
                 else DNull),
              md_title = js_or (js_or (ImageDescription allTags) (XPTitle allTags)) (XPSubject allTags),
              md_description =
                js_or (js_or (XPComment allTags) (UserComment allTags)) (ImageDescription allTags),
              md_camera =
                (if truthy (Make allTags) \<and> truthy (Model allTags)
                 then Some (to_string (Make allTags) @ '' '' @ to_string (Model allTags))
                 else None),
              md_software = js_or (Software allTags) (ProcessingSoftware allTags)\<rparr>)))"

text \<open>Reading a property of the resolved object: \<^verbatim>\<open>undefined\<close> on the empty object.\<close>

definition get_title :: "metadata option \<Rightarrow> string option" where
  "get_title m = (case m of None \<Rightarrow> None | Some x \<Rightarrow> md_title x)"

definition get_description :: "metadata option \<Rightarrow> string option" where
  "get_description m = (case m of None \<Rightarrow> None | Some x \<Rightarrow> md_description x)"

definition get_camera :: "metadata option \<Rightarrow> string option" where
  "get_camera m = (case m of None \<Rightarrow> None | Some x \<Rightarrow> md_camera x)"

definition get_software :: "metadata option \<Rightarrow> string option" where
  "get_software m = (case m of None \<Rightarrow> None | Some x \<Rightarrow> md_software x)"

text \<open>\<^verbatim>\<open>metadata.dateObj || d\<close>: \<^verbatim>\<open>undefined\<close> and \<^verbatim>\<open>null\<close> give \<open>d\<close>, any \<^verbatim>\<open>Date\<close> object
  is kept, an Invalid Date too.\<close>

definition dateObj_or :: "metadata option \<Rightarrow> date_value \<Rightarrow> date_value" where
  "dateObj_or m d =
     (case m of
        None \<Rightarrow> d
      | Some x \<Rightarrow> (case md_dateObj x of DNull \<Rightarrow> d | DDate t \<Rightarrow> DDate t))"

text \<open>
  \<^verbatim>\<open>...metadata\<close> at the end of an object literal: every property of the resolved object
  overwrites the property of that name written before it.
\<close>

definition spread :: "metadata option \<Rightarrow> image \<Rightarrow> image" where
  "spread m img =
     (case m of
        None \<Rightarrow> img
      | Some x \<Rightarrow>
          img\<lparr>dateObj := md_dateObj x, title := md_title x, description := md_description x,
              camera := md_camera x, software := md_software x\<rparr>)"

text \<open>\<^verbatim>\<open>new Date(file.sha || Date.now())\<close>\<close>

definition date_of_sha :: "env \<Rightarrow> string option \<Rightarrow> date_value" where
  "date_of_sha e s = (if truthy s then new_Date e s else new_Date_now e)"

text \<open>The value that the promise of \<^verbatim>\<open>loadImageWithMetadata\<close> resolves to; \<open>None\<close> is
  \<^verbatim>\<open>null\<close>.\<close>

definition loadImageWithMetadata :: "env \<Rightarrow> github_file \<Rightarrow> image option" where
  "loadImageWithMetadata e file =
     (let source = ''../images/'' @ name file
      in case load_image e source of
           None \<Rightarrow> None
         | Some img \<Rightarrow>
             (case extractImageMetadata e img source of
                Inr m \<Rightarrow>
                  Some (spread m
                    \<lparr>filename = name file,
                     title = js_or (get_title m) (Some (generateTitle (strip_extension (name file)))),
                     src = source,
                     dateObj = dateObj_or m (date_of_sha e (sha file)),
                     description = get_description m,
                     camera = get_camera m,
                     software = get_software m,
                     dimensions = Some (naturalWidth img, naturalHeight img)\<rparr>)
              | Inl err \<Rightarrow>
                  Some
                    \<lparr>filename = name file,
                     title = Some (generateTitle (strip_extension (name file))),
                     src = source,
                     dateObj = new_Date_now e,
                     description = None, camera = None, software = None,
                     dimensions = Some (naturalWidth img, naturalHeight img)\<rparr>))"

definition commonPatterns :: "string list" where
  "commonPatterns =
     [''character1.jpg'', ''character2.jpg'', ''character3.jpg'', ''character4.jpg'', ''character5.jpg'',
      ''character1.png'', ''character2.png'', ''character3.png'', ''character4.png'', ''character5.png'',
      ''art1.jpg'', ''art2.jpg'', ''art3.jpg'', ''art4.jpg'', ''art5.jpg'',
      ''drawing1.jpg'', ''drawing2.jpg'', ''drawing3.jpg'', ''drawing4.jpg'', ''drawing5.jpg'']"

text \<open>
  The loop of \<^verbatim>\<open>loadImagesFallback\<close> over the candidate names, with \<^verbatim>\<open>validImages\<close> as
  accumulator. A candidate that does not load is skipped. The \<^verbatim>\<open>onload\<close> handler has no
  \<^verbatim>\<open>catch\<close>: when reading the tags throws, the awaited promise is never settled and the
  loop never continues, which is the result \<open>None\<close>; \<^verbatim>\<open>loadImagesFallback\<close> is then
  \<open>Pending\<close>, with \<^verbatim>\<open>this.images\<close> not yet assigned.
\<close>

fun probe_patterns :: "env \<Rightarrow> string list \<Rightarrow> image list \<Rightarrow> image list option" where
  "probe_patterns e [] validImages = Some validImages"
| "probe_patterns e (pattern # rest) validImages =
     (let source = ''../images/'' @ pattern
      in case load_image e source of
           None \<Rightarrow> probe_patterns e rest validImages
         | Some img \<Rightarrow>
             (case extractImageMetadata e img source of
                Inl err \<Rightarrow> None
              | Inr m \<Rightarrow>
                  probe_patterns e rest
                    (validImages @
                     [spread m
                        \<lparr>filename = pattern,
                         title = js_or (get_title m) (Some (generateTitle (strip_extension pattern))),
                         src = source,
                         dateObj = dateObj_or m (new_Date_now e),
                         description = None, camera = None, software = None,
                         dimensions = Some (naturalWidth img, naturalHeight img)\<rparr>])))"

definition loadImagesFallback :: "env \<Rightarrow> artGallery \<Rightarrow> completion \<times> artGallery" where
  "loadImagesFallback e this =
     (let this0 = this\<lparr>calls := calls this @ [LoadImagesFallback]\<rparr>
      in case probe_patterns e commonPatterns [] of
           None \<Rightarrow> (Pending, this0)
         | Some validImages \<Rightarrow>
             (let this1 = this0\<lparr>images := validImages\<rparr>
              in if length (images this1) = 0 then (Normal, showInstructions this1)
                 else (Normal, this1)))"

text \<open>
  The owner and repository in the request come from the page's address and only decide
  which listing the environment answers with. \<^verbatim>\<open>Promise.all\<close> keeps the order of the
  files.
\<close>

definition loadImagesFromGitHub :: "env \<Rightarrow> artGallery \<Rightarrow> completion \<times> artGallery" where
  "loadImagesFromGitHub e this =
     (let this0 = this\<lparr>calls := calls this @ [LoadImagesFromGitHub]\<rparr>
      in case github_contents e of
           None \<Rightarrow> loadImagesFallback e this0
         | Some files \<Rightarrow>
             (let imageFiles = filter (\<lambda>file. image_file_filter (name file)) files;
                  loaded = map (loadImageWithMetadata e) imageFiles
              in (Normal, this0\<lparr>images := map the (filter (\<lambda>img. img \<noteq> None) loaded)\<rparr>)))"

definition loadImages :: "env \<Rightarrow> artGallery \<Rightarrow> completion \<times> artGallery" where
  "loadImages e this =
     (case loadImagesFromGitHub e this of
        (Normal, this1) \<Rightarrow> sortImages e ''date'' this1
      | (abrupt, this1) \<Rightarrow> (abrupt, this1))"

definition init :: "env \<Rightarrow> artGallery \<Rightarrow> completion \<times> artGallery" where
  "init e this =
     (case loadImages e this of
        (Normal, this1) \<Rightarrow>
          (case renderGallery this1 of
             (Normal, this2) \<Rightarrow> (Normal, setupEventListeners this2)
           | (abrupt, this2) \<Rightarrow> (abrupt, this2))
      | (abrupt, this1) \<Rightarrow> (abrupt, this1))"

subsection \<open>Order properties\<close>

text \<open>What a comparison says about two elements: \<open>x\<close> may stay before \<open>y\<close>.\<close>

definition cmp_le :: "('a \<Rightarrow> 'a \<Rightarrow> error + int) \<Rightarrow> 'a \<Rightarrow> 'a \<Rightarrow> bool" where
  "cmp_le c x y = (case c x y of Inl err \<Rightarrow> False | Inr v \<Rightarrow> v \<le> 0)"

definition cmp_total_on :: "('a \<Rightarrow> 'a \<Rightarrow> error + int) \<Rightarrow> 'a set \<Rightarrow> bool" where
  "cmp_total_on c S = (\<forall>x\<in>S. \<forall>y\<in>S. cmp_le c x y \<or> cmp_le c y x)"

definition cmp_trans_on :: "('a \<Rightarrow> 'a \<Rightarrow> error + int) \<Rightarrow> 'a set \<Rightarrow> bool" where
  "cmp_trans_on c S = (\<forall>x\<in>S. \<forall>y\<in>S. \<forall>z\<in>S. cmp_le c x y \<longrightarrow> cmp_le c y z \<longrightarrow> cmp_le c x z)"



text \<open>
  The time values do not increase along the list: every earlier \<^verbatim>\<open>dateObj\<close> is \<^verbatim>\<open>>=\<close>
  every later one, which is false as soon as one of the two is \<^verbatim>\<open>NaN\<close>.
\<close>

definition dates_non_increasing :: "image list \<Rightarrow> bool" where
  "dates_non_increasing xs =
     sorted_wrt (\<lambda>a b. case (to_number (dateObj a), to_number (dateObj b)) of
                          (Some x, Some y) \<Rightarrow> y \<le> x
                        | _ \<Rightarrow> False) xs"

text \<open>
  The weaker reading, which passes over Invalid Dates: wherever an earlier and a later
  record both have a time value that is a number, the earlier one is not the older.
\<close>

definition newest_first :: "image list \<Rightarrow> bool" where
  "newest_first xs =
     sorted_wrt (\<lambda>a b. case (to_number (dateObj a), to_number (dateObj b)) of
                          (Some x, Some y) \<Rightarrow> y \<le> x
                        | _ \<Rightarrow> True) xs"

definition titles_ascending :: "env \<Rightarrow> image list \<Rightarrow> bool" where
  "titles_ascending e xs =
     sorted_wrt (\<lambda>a b. localeCompare e (to_string (title a)) (to_string (title b)) \<le> 0) xs"

text \<open>
  What the language standard requires of \<^verbatim>\<open>localeCompare\<close>, on a set of strings: it is a
  consistent comparison function, so "not after" is total and transitive.
\<close>

definition consistent_comparator :: "(string \<Rightarrow> string \<Rightarrow> int) \<Rightarrow> string set \<Rightarrow> bool" where
  "consistent_comparator lc T =
     ((\<forall>a\<in>T. \<forall>b\<in>T. lc a b \<le> 0 \<or> lc b a \<le> 0)
      \<and> (\<forall>a\<in>T. \<forall>b\<in>T. \<forall>c\<in>T. lc a b \<le> 0 \<longrightarrow> lc b c \<le> 0 \<longrightarrow> lc a c \<le> 0))"


definition title_strings :: "image list \<Rightarrow> string set" where
  "title_strings xs = (\<lambda>img. to_string (title img)) ` set xs"


subsection \<open>Example inputs\<close>

text \<open>A comparison of strings by code units, as one possible \<^verbatim>\<open>localeCompare\<close>.\<close>

fun compare_code_units :: "string \<Rightarrow> string \<Rightarrow> int" where
  "compare_code_units [] [] = 0"
| "compare_code_units [] (b # bs) = - 1"
| "compare_code_units (a # as) [] = 1"
| "compare_code_units (a # as) (b # bs) =
     (if (of_char a :: nat) < of_char b then - 1
      else if (of_char b :: nat) < of_char a then 1
      else compare_code_units as bs)"

text \<open>An environment in which nothing can be fetched or loaded and no string parses as a
  date.\<close>

definition offline :: env where
  "offline =
     \<lparr>metadata_json = FetchFails, github_contents = None, load_image = (\<lambda>source. None),
      date_now = 1700000000000, date_parse = (\<lambda>s. None), localeCompare = compare_code_units\<rparr>"

text \<open>The tags of an image that carries none.\<close>

definition no_tags :: exif_tags where
  "no_tags =
     \<lparr>DateTimeOriginal = None, DateTime = None, DateTimeDigitized = None,
      ImageDescription = None, XPTitle = None, XPSubject = None, XPComment = None,
      UserComment = None, Make = None, Model = None, Software = None,
      ProcessingSoftware = None\<rparr>"

text \<open>A record with a file name, a title and a date.\<close>

definition picture :: "string \<Rightarrow> string option \<Rightarrow> date_value \<Rightarrow> image" where
  "picture f t d =
     \<lparr>filename = f, title = t, src = ''../images/'' @ f, dateObj = d, description = None,
      camera = None, software = None, dimensions = None\<rparr>"

text \<open>A gallery of two dated and titled records, the older one first.\<close>

definition two_pictures :: artGallery where
  "two_pictures =
     (constructor ''Loading...'')
       \<lparr>images := [picture ''fox.jpg'' (Some ''Fox'') (DDate (Some 1704067200000)),
                   picture ''ant.jpg'' (Some ''Ant'') (DDate (Some 1717200000000))]\<rparr>"

text \<open>A gallery of three records, the second with an Invalid Date.\<close>

definition invalid_date_between :: artGallery where
  "invalid_date_between =
     (constructor ''Loading...'')
       \<lparr>images := [picture ''january.jpg'' (Some ''January'') (DDate (Some 1704067200000)),
                   picture ''undated.jpg'' (Some ''Undated'') (DDate None),
                   picture ''june.jpg'' (Some ''June'') (DDate (Some 1717200000000))]\<rparr>"

text \<open>The text that \<^verbatim>\<open>renderGallery\<close> writes for an empty collection.\<close>

definition no_artwork_text :: string where
  "no_artwork_text = ''No artwork found. Please add images and metadata.json''"

text \<open>A listing with one image that loads and whose tags hold nothing.\<close>

definition untagged_listing :: env where
  "untagged_listing =
     offline
       \<lparr>github_contents :=
          Some [\<lparr>name = ''sketch.jpg'', sha = Some ''3f2a9c41d07be85a6c1f0e24b7d3a9e5f6081c2d''\<rparr>],
        load_image :=
          (\<lambda>source. if source = ''../images/sketch.jpg''
                     then Some \<lparr>naturalWidth = 800, naturalHeight = 600, exif = ExifTags no_tags\<rparr>
                     else None)\<rparr>"

text \<open>The same with two more entries: an image that does not load and a text file.\<close>

definition partly_loading_listing :: env where
  "partly_loading_listing =
     untagged_listing
       \<lparr>github_contents :=
          Some [\<lparr>name = ''sketch.jpg'', sha = None\<rparr>, \<lparr>name = ''missing.png'', sha = None\<rparr>,
                \<lparr>name = ''notes.txt'', sha = None\<rparr>]\<rparr>"

text \<open>A descriptor whose second entry has no date.\<close>

definition undated_descriptor :: env where
  "undated_descriptor =
     offline
       \<lparr>metadata_json :=
          Parsed (Some
            [\<lparr>raw_filename = ''january.jpg'', raw_title = Some ''January'',
              raw_date = Some ''2024-01-01''\<rparr>,
             \<lparr>raw_filename = ''undated.jpg'', raw_title = Some ''Undated'', raw_date = None\<rparr>,
             \<lparr>raw_filename = ''june.jpg'', raw_title = Some ''June'',
              raw_date = Some ''2024-06-01''\<rparr>]),
        date_parse :=
          (\<lambda>s. if s = ''2024-01-01'' then Some 1704067200000
               else if s = ''2024-06-01'' then Some 1717200000000 else None)\<rparr>"

text \<open>A descriptor with one dated entry.\<close>

definition with_descriptor :: env where
  "with_descriptor =
     offline
       \<lparr>metadata_json :=
          Parsed (Some
            [\<lparr>raw_filename = ''fox.jpg'', raw_title = Some ''Fox'', raw_date = Some ''2024-01-01''\<rparr>]),
        date_parse := (\<lambda>s. if s = ''2024-01-01'' then Some 1704067200000 else None)\<rparr>"

text \<open>A descriptor that is fetched and parsed and has no list of images: \<^verbatim>\<open>{}\<close>.\<close>

definition empty_document :: env where
  "empty_document = offline\<lparr>metadata_json := Parsed None\<rparr>"

text \<open>No listing, and a first candidate name that loads but whose tags cannot be read.\<close>

definition unreadable_tags :: env where
  "unreadable_tags =
     offline
       \<lparr>load_image :=
          (\<lambda>source. if source = ''../images/character1.jpg''
                     then Some \<lparr>naturalWidth = 800, naturalHeight = 600, exif = ExifThrows\<rparr>
                     else None)\<rparr>"

section \<open>Properties\<close>

subsection \<open>Title generation\<close>

lemma replace_dash_underscore_map:
  "replace_all re_dash_underscore (\<lambda>m. '' '') prev s = map dash_to_space s"
  by (induction s arbitrary: prev) (simp_all add: re_dash_underscore_def dash_to_space_def)

lemma replace_word_start_capitalize:
  "replace_all re_word_start toUpperCase prev s =
     capitalize_words (case prev of None \<Rightarrow> False | Some p \<Rightarrow> is_word_char p) s"
  by (induction s arbitrary: prev) (simp_all add: re_word_start_def toUpperCase_def)

lemma hash_digit_runs_in_run:
  "hash_digit_runs True s = takeWhile is_digit s @ hash_digit_runs False (dropWhile is_digit s)"
  by (induction s) simp_all

lemma replace_digits_hash:
  "replace_all re_digits (\<lambda>m. CHR ''#'' # m) prev s = hash_digit_runs False s"
proof (induction s arbitrary: prev rule: length_induct)
  case (1 s)
  show ?case
  proof (cases s)
    case Nil
    then show ?thesis by simp
  next
    case (Cons c cs)
    show ?thesis
    proof (cases "is_digit c")
      case False
      have "length cs < length s" using Cons by simp
      then have "replace_all re_digits (\<lambda>m. CHR ''#'' # m) (Some c) cs = hash_digit_runs False cs"
        using 1 by blast
      moreover have "re_digits prev (c # cs) = None"
        using False by (simp add: re_digits_def)
      ultimately show ?thesis using Cons False by simp
    next
      case True
      define n where "n = length (takeWhile is_digit cs)"
      have tk: "take n cs = takeWhile is_digit cs" and dr: "drop n cs = dropWhile is_digit cs"
        unfolding n_def by (simp_all add: takeWhile_eq_take[symmetric] dropWhile_eq_drop[symmetric])
      have "length (drop n cs) < length s" using Cons by simp
      then have ih: "replace_all re_digits (\<lambda>m. CHR ''#'' # m) (Some (last (c # take n cs))) (drop n cs)
                  = hash_digit_runs False (drop n cs)"
        using 1 by blast
      have m: "re_digits prev (c # cs) = Some (Suc n)"
        using True by (simp add: re_digits_def n_def)
      show ?thesis
        using Cons True m ih tk dr by (simp add: hash_digit_runs_in_run)
    qed
  qed
qed

text \<open>
  C7. \<^verbatim>\<open>generateTitle\<close> is a function of the extensionless file name alone. Its three
  regular-expression replacements compute exactly what the specification describes:
  every \<^verbatim>\<open>-\<close> and \<^verbatim>\<open>_\<close> replaced by a space, then the first character of each word
  capitalised, then \<^verbatim>\<open>#\<close> put in front of every run of digits; and
  \<^verbatim>\<open>generateTitle("my_art-02")\<close> is \<^verbatim>\<open>"My Art #02"\<close>.
\<close>

theorem generateTitle_meets_spec:
  "generateTitle s = title_spec s \<and> generateTitle ''my_art-02'' = ''My Art #02''"
proof
  show "generateTitle s = title_spec s"
    by (simp add: generateTitle_def title_spec_def replace_dash_underscore_map
        replace_word_start_capitalize replace_digits_hash)
  show "generateTitle ''my_art-02'' = ''My Art #02''"
    by code_simp
qed

subsection \<open>The extension filter\<close>

lemma lastIndexOf_absent: "c \<notin> set s \<Longrightarrow> lastIndexOf s c = - 1"
proof -
  assume a: "c \<notin> set s"
  have "filter (\<lambda>i. s ! i = c) (rev [0..<length s]) = []"
    using a by (auto simp: filter_empty_conv)
  then show ?thesis by (simp add: lastIndexOf_def)
qed

lemma toLowerCase_char_dot: "toLowerCase_char c = CHR ''.'' \<Longrightarrow> c = CHR ''.''"
proof (rule ccontr)
  assume a: "toLowerCase_char c = CHR ''.''" and n: "c \<noteq> CHR ''.''"
  then have r: "65 \<le> (of_char c :: nat)" "(of_char c :: nat) \<le> 90"
    and e: "char_of ((of_char c :: nat) + 32) = CHR ''.''"
    by (auto simp: toLowerCase_char_def Let_def split: if_splits)
  have "(of_char (char_of ((of_char c :: nat) + 32)) :: nat) = of_char (CHR ''.'')"
    using e by simp
  then have "((of_char c :: nat) + 32) mod 256 = 46" by simp
  then show False using r by simp
qed

lemma toLowerCase_no_dot: "CHR ''.'' \<notin> set s \<Longrightarrow> CHR ''.'' \<notin> set (toLowerCase s)"
  by (auto simp: toLowerCase_def dest: toLowerCase_char_dot [OF sym])

text \<open>
  C9. In the extension filter of the directory-listing strategy, a file name without a
  \<^verbatim>\<open>.\<close> is never accepted: \<^verbatim>\<open>lastIndexOf\<close> is \<open>-1\<close>, so the computed extension is the whole
  lower-cased name, which has no dot and therefore is none of \<^verbatim>\<open>.jpg\<close>, \<^verbatim>\<open>.jpeg\<close>,
  \<^verbatim>\<open>.png\<close>, \<^verbatim>\<open>.gif\<close>, \<^verbatim>\<open>.webp\<close>.
\<close>

theorem extension_filter_rejects_dotless:
  assumes "CHR ''.'' \<notin> set fname"
  shows "lastIndexOf fname (CHR ''.'') = - 1
       \<and> substring (toLowerCase fname) (lastIndexOf fname (CHR ''.'')) = toLowerCase fname
       \<and> \<not> image_file_filter fname"
proof -
  have i: "lastIndexOf fname (CHR ''.'') = - 1" using assms by (rule lastIndexOf_absent)
  have s: "substring (toLowerCase fname) (- 1) = toLowerCase fname" by (simp add: substring_def)
  have "CHR ''.'' \<notin> set (toLowerCase fname)" using assms by (rule toLowerCase_no_dot)
  then have "toLowerCase fname \<notin> set imageExtensions"
    by (auto simp: imageExtensions_def)
  then show ?thesis using i s by (simp add: image_file_filter_def includes_str_def)
qed

theorem extension_filter_rejects_dotless_witness:
  "CHR ''.'' \<notin> set ''README''
   \<and> substring (toLowerCase ''README'') (lastIndexOf ''README'' (CHR ''.'')) = toLowerCase ''README''
   \<and> \<not> image_file_filter ''README''"
proof -
  have h: "CHR ''.'' \<notin> set ''README''" by simp
  from extension_filter_rejects_dotless [OF h] show ?thesis using h by blast
qed

subsection \<open>Sorting\<close>

lemma insert_cmp_mset: "insert_cmp c x ys = Inr zs \<Longrightarrow> mset zs = add_mset x (mset ys)"
  by (induction ys arbitrary: zs) (auto split: sum.splits if_splits)

lemma array_sort_mset: "array_sort c xs = Inr ys \<Longrightarrow> mset ys = mset xs"
  by (induction xs arbitrary: ys) (auto split: sum.splits dest: insert_cmp_mset)

lemma insert_cmp_set: "insert_cmp c x ys = Inr zs \<Longrightarrow> set zs = insert x (set ys)"
proof -
  assume "insert_cmp c x ys = Inr zs"
  then have "mset zs = add_mset x (mset ys)" by (rule insert_cmp_mset)
  then have "set_mset (mset zs) = set_mset (add_mset x (mset ys))" by simp
  then show ?thesis by simp
qed

lemma array_sort_set: "array_sort c xs = Inr ys \<Longrightarrow> set ys = set xs"
proof -
  assume "array_sort c xs = Inr ys"
  then have "mset ys = mset xs" by (rule array_sort_mset)
  then show ?thesis by (rule mset_eq_setD)
qed

lemma insert_cmp_total:
  "\<forall>y\<in>set ys. \<not> isl (c x y) \<Longrightarrow> \<not> isl (insert_cmp c x ys)"
  by (induction ys) (auto split: sum.splits)

lemma array_sort_total:
  "\<forall>x\<in>set xs. \<forall>y\<in>set xs. \<not> isl (c x y) \<Longrightarrow> \<not> isl (array_sort c xs)"
proof (induction xs)
  case Nil
  then show ?case by simp
next
  case (Cons x xs)
  have "\<forall>a\<in>set xs. \<forall>y\<in>set xs. \<not> isl (c a y)" using Cons.prems by simp
  then have "\<not> isl (array_sort c xs)" by (rule Cons.IH)
  then obtain ys where ys: "array_sort c xs = Inr ys" by (cases "array_sort c xs") simp_all
  then have "set ys = set xs" by (rule array_sort_set)
  then have "\<forall>y\<in>set ys. \<not> isl (c x y)" using Cons.prems by simp
  then have "\<not> isl (insert_cmp c x ys)" by (rule insert_cmp_total)
  then show ?case using ys by simp
qed

lemma cmp_total_on_subset: "cmp_total_on c T \<Longrightarrow> S \<subseteq> T \<Longrightarrow> cmp_total_on c S"
  unfolding cmp_total_on_def by blast

lemma cmp_trans_on_subset: "cmp_trans_on c T \<Longrightarrow> S \<subseteq> T \<Longrightarrow> cmp_trans_on c S"
  unfolding cmp_trans_on_def by blast


lemma cmp_total_onD: "cmp_total_on c S \<Longrightarrow> x \<in> S \<Longrightarrow> y \<in> S \<Longrightarrow> \<not> cmp_le c x y \<Longrightarrow> cmp_le c y x"
  unfolding cmp_total_on_def by blast

lemma cmp_trans_onD:
  "cmp_trans_on c S \<Longrightarrow> x \<in> S \<Longrightarrow> y \<in> S \<Longrightarrow> z \<in> S \<Longrightarrow> cmp_le c x y \<Longrightarrow> cmp_le c y z \<Longrightarrow> cmp_le c x z"
  unfolding cmp_trans_on_def by blast


lemma insert_cmp_sorted:
  "insert_cmp c x ys = Inr zs \<Longrightarrow> sorted_wrt (cmp_le c) ys \<Longrightarrow>
   cmp_total_on c (insert x (set ys)) \<Longrightarrow> cmp_trans_on c (insert x (set ys)) \<Longrightarrow>
   sorted_wrt (cmp_le c) zs"
proof (induction ys arbitrary: zs)
  case Nil
  then show ?case by auto
next
  case (Cons y ys)
  from Cons.prems(1) obtain v where v: "c x y = Inr v"
    by (cases "c x y") simp_all
  have sy: "sorted_wrt (cmp_le c) ys" and yall: "\<forall>z\<in>set ys. cmp_le c y z"
    using Cons.prems(2) by simp_all
  show ?case
  proof (cases "v \<le> 0")
    case True
    then have zs: "zs = x # y # ys" using Cons.prems(1) v by simp
    have xy: "cmp_le c x y" using v True by (simp add: cmp_le_def)
    have "\<forall>z\<in>set ys. cmp_le c x z"
    proof
      fix z assume z: "z \<in> set ys"
      then have "cmp_le c y z" using yall by simp
      then show "cmp_le c x z"
        using cmp_trans_onD [OF Cons.prems(4), of x y z] xy z by simp
    qed
    then show ?thesis using zs xy sy yall by simp
  next
    case False
    then obtain zs' where zs': "insert_cmp c x ys = Inr zs'" and zs: "zs = y # zs'"
      using Cons.prems(1) v by (cases "insert_cmp c x ys") simp_all
    have sub: "insert x (set ys) \<subseteq> insert x (set (y # ys))" by auto
    have t1: "cmp_total_on c (insert x (set ys))"
      using Cons.prems(3) sub by (rule cmp_total_on_subset)
    have t2: "cmp_trans_on c (insert x (set ys))"
      using Cons.prems(4) sub by (rule cmp_trans_on_subset)
    have s': "sorted_wrt (cmp_le c) zs'" using Cons.IH [OF zs' sy t1 t2] .
    have "\<not> cmp_le c x y" using v False by (simp add: cmp_le_def)
    then have yx: "cmp_le c y x"
      using cmp_total_onD [OF Cons.prems(3), of x y] by simp
    have "set zs' = insert x (set ys)" using zs' by (rule insert_cmp_set)
    then have "\<forall>z\<in>set zs'. cmp_le c y z" using yx yall by simp
    then show ?thesis using zs s' by simp
  qed
qed

lemma array_sort_sorted:
  "array_sort c xs = Inr ys \<Longrightarrow> cmp_total_on c (set xs) \<Longrightarrow> cmp_trans_on c (set xs) \<Longrightarrow>
   sorted_wrt (cmp_le c) ys"
proof (induction xs arbitrary: ys)
  case Nil
  then show ?case by simp
next
  case (Cons x xs)
  from Cons.prems(1) obtain ys' where ys': "array_sort c xs = Inr ys'"
    and ins: "insert_cmp c x ys' = Inr ys" by (cases "array_sort c xs") simp_all
  have s: "set ys' = set xs" using ys' by (rule array_sort_set)
  have sub: "set xs \<subseteq> set (x # xs)" by auto
  have t1: "cmp_total_on c (set xs)" using Cons.prems(2) sub by (rule cmp_total_on_subset)
  have t2: "cmp_trans_on c (set xs)" using Cons.prems(3) sub by (rule cmp_trans_on_subset)
  have a: "sorted_wrt (cmp_le c) ys'" using Cons.IH [OF ys' t1 t2] .
  have b: "cmp_total_on c (insert x (set ys'))" using Cons.prems(2) s by simp
  have d: "cmp_trans_on c (insert x (set ys'))" using Cons.prems(3) s by simp
  show ?case using insert_cmp_sorted [OF ins a b d] .
qed






subsection \<open>The two comparison functions\<close>

lemma date_never_throws: "\<not> isl (SortCompare compare_date a b)"
  by (simp add: SortCompare_def compare_date_def split: option.splits)

lemma date_sort_returns: "\<exists>ys. array_sort (SortCompare compare_date) xs = Inr ys"
proof -
  have "\<not> isl (array_sort (SortCompare compare_date) xs)"
    by (rule array_sort_total) (simp add: date_never_throws)
  then show ?thesis by (cases "array_sort (SortCompare compare_date) xs") simp_all
qed

lemma date_cmp_le:
  "to_number (dateObj a) = Some x \<Longrightarrow> to_number (dateObj b) = Some y \<Longrightarrow>
   cmp_le (SortCompare compare_date) a b = (y \<le> x)"
  by (simp add: cmp_le_def SortCompare_def compare_date_def js_minus_def)

lemma date_total:
  "\<forall>img\<in>set xs. to_number (dateObj img) \<noteq> None \<Longrightarrow> cmp_total_on (SortCompare compare_date) (set xs)"
  unfolding cmp_total_on_def
proof (intro ballI)
  fix a b assume h: "\<forall>img\<in>set xs. to_number (dateObj img) \<noteq> None" and a: "a \<in> set xs" and b: "b \<in> set xs"
  have "to_number (dateObj a) \<noteq> None" "to_number (dateObj b) \<noteq> None"
    using h a b by blast+
  then obtain x y where "to_number (dateObj a) = Some x" "to_number (dateObj b) = Some y"
    by fastforce
  then show "cmp_le (SortCompare compare_date) a b \<or> cmp_le (SortCompare compare_date) b a"
    by (simp add: date_cmp_le) linarith
qed

lemma date_trans:
  "\<forall>img\<in>set xs. to_number (dateObj img) \<noteq> None \<Longrightarrow> cmp_trans_on (SortCompare compare_date) (set xs)"
  unfolding cmp_trans_on_def
proof (intro ballI impI)
  fix a b d assume h: "\<forall>img\<in>set xs. to_number (dateObj img) \<noteq> None"
    and a: "a \<in> set xs" and b: "b \<in> set xs" and d: "d \<in> set xs"
    and ab: "cmp_le (SortCompare compare_date) a b" and bd: "cmp_le (SortCompare compare_date) b d"
  have "to_number (dateObj a) \<noteq> None" "to_number (dateObj b) \<noteq> None"
    "to_number (dateObj d) \<noteq> None"
    using h a b d by blast+
  then obtain x y z where n: "to_number (dateObj a) = Some x" "to_number (dateObj b) = Some y"
    "to_number (dateObj d) = Some z"
    by fastforce
  have "y \<le> x" using ab n by (simp add: date_cmp_le)
  moreover have "z \<le> y" using bd n by (simp add: date_cmp_le)
  ultimately show "cmp_le (SortCompare compare_date) a d" using n by (simp add: date_cmp_le)
qed

lemma date_le_newest:
  "cmp_le (SortCompare compare_date) a b \<Longrightarrow>
   (case (to_number (dateObj a), to_number (dateObj b)) of (Some x, Some y) \<Rightarrow> y \<le> x | _ \<Rightarrow> True)"
  by (auto simp: cmp_le_def SortCompare_def compare_date_def js_minus_def split: option.splits)


lemma name_cmp_le:
  "title a = Some s \<Longrightarrow>
   cmp_le (SortCompare (compare_name e)) a b = (localeCompare e (to_string (title a)) (to_string (title b)) \<le> 0)"
  by (simp add: cmp_le_def SortCompare_def compare_name_def to_string_def)

lemma name_never_throws:
  "title a \<noteq> None \<Longrightarrow> \<not> isl (SortCompare (compare_name e) a b)"
  by (auto simp: SortCompare_def compare_name_def split: option.splits)


lemma two_pictures_titles: "title_strings (images two_pictures) = {''Fox'', ''Ant''}"
  by (auto simp: title_strings_def two_pictures_def picture_def to_string_def)

lemma sortImages_date:
  "array_sort (SortCompare compare_date) (images this) = Inr ys \<Longrightarrow>
   sortImages e ''date'' this = (Normal, this\<lparr>currentSort := ''date'', images := ys\<rparr>)"
  by (simp add: sortImages_def)

lemma sortImages_name:
  "array_sort (SortCompare (compare_name e)) (images this) = Inr ys \<Longrightarrow>
   sortImages e ''name'' this = (Normal, this\<lparr>currentSort := ''name'', images := ys\<rparr>)"
  by (simp add: sortImages_def)

lemma sortImages_name_throw:
  "array_sort (SortCompare (compare_name e)) (images this) = Inl err \<Longrightarrow>
   sortImages e ''name'' this = (Throw err, this\<lparr>currentSort := ''name''\<rparr>)"
  by (simp add: sortImages_def)

lemma sortImages_other:
  "sortType \<noteq> ''date'' \<Longrightarrow> sortType \<noteq> ''name'' \<Longrightarrow>
   sortImages e sortType this = (Normal, this\<lparr>currentSort := sortType\<rparr>)"
  by (simp add: sortImages_def)

lemma sorted_by_date:
  assumes h: "\<forall>img\<in>set xs. to_number (dateObj img) \<noteq> None"
    and s: "array_sort (SortCompare compare_date) xs = Inr ys"
  shows "dates_non_increasing ys"
proof -
  have srt: "sorted_wrt (cmp_le (SortCompare compare_date)) ys"
    using s date_total [OF h] date_trans [OF h] by (rule array_sort_sorted)
  have "set ys = set xs" using s by (rule array_sort_set)
  then have hy: "\<forall>img\<in>set ys. to_number (dateObj img) \<noteq> None" using h by simp
  have "sorted_wrt (\<lambda>a b. case (to_number (dateObj a), to_number (dateObj b)) of
                          (Some x, Some y) \<Rightarrow> y \<le> x
                        | _ \<Rightarrow> False) ys"
  proof (rule sorted_wrt_mono_rel [OF _ srt])
    fix a b assume a: "a \<in> set ys" and b: "b \<in> set ys"
      and le: "cmp_le (SortCompare compare_date) a b"
    have "to_number (dateObj a) \<noteq> None" "to_number (dateObj b) \<noteq> None"
      using hy a b by blast+
    then obtain x y where n: "to_number (dateObj a) = Some x" "to_number (dateObj b) = Some y"
      by fastforce
    then have "y \<le> x" using le by (simp add: date_cmp_le)
    then show "case (to_number (dateObj a), to_number (dateObj b)) of
                 (Some x, Some y) \<Rightarrow> y \<le> x | _ \<Rightarrow> False"
      using n by simp
  qed
  then show ?thesis by (simp add: dates_non_increasing_def)
qed

lemma dates_non_increasing_newest_first:
  assumes "dates_non_increasing xs"
  shows "newest_first xs"
proof -
  have s: "sorted_wrt (\<lambda>a b. case (to_number (dateObj a), to_number (dateObj b)) of
                          (Some x, Some y) \<Rightarrow> y \<le> x
                        | _ \<Rightarrow> False) xs"
    using assms by (simp add: dates_non_increasing_def)
  show ?thesis
    unfolding newest_first_def
  proof (rule sorted_wrt_mono_rel [OF _ s])
    fix a b
    assume "case (to_number (dateObj a), to_number (dateObj b)) of
              (Some x, Some y) \<Rightarrow> y \<le> x | _ \<Rightarrow> False"
    then show "case (to_number (dateObj a), to_number (dateObj b)) of
              (Some x, Some y) \<Rightarrow> y \<le> x | _ \<Rightarrow> True"
      by (cases "to_number (dateObj a)"; cases "to_number (dateObj b)") simp_all
  qed
qed

lemma name_total:
  assumes t: "\<forall>img\<in>set xs. title img \<noteq> None"
    and c: "consistent_comparator (localeCompare e) (title_strings xs)"
  shows "cmp_total_on (SortCompare (compare_name e)) (set xs)"
  unfolding cmp_total_on_def
proof (intro ballI)
  fix a b assume a: "a \<in> set xs" and b: "b \<in> set xs"
  have ta: "to_string (title a) \<in> title_strings xs" and tb: "to_string (title b) \<in> title_strings xs"
    using a b by (auto simp: title_strings_def)
  have "title a \<noteq> None" and "title b \<noteq> None" using t a b by blast+
  then obtain s u where s: "title a = Some s" and u: "title b = Some u"
    by (cases "title a"; cases "title b") simp_all
  have "localeCompare e (to_string (title a)) (to_string (title b)) \<le> 0
      \<or> localeCompare e (to_string (title b)) (to_string (title a)) \<le> 0"
    using c ta tb unfolding consistent_comparator_def by blast
  then show "cmp_le (SortCompare (compare_name e)) a b \<or> cmp_le (SortCompare (compare_name e)) b a"
    using name_cmp_le [OF s] name_cmp_le [OF u] by simp
qed

lemma name_trans:
  assumes t: "\<forall>img\<in>set xs. title img \<noteq> None"
    and c: "consistent_comparator (localeCompare e) (title_strings xs)"
  shows "cmp_trans_on (SortCompare (compare_name e)) (set xs)"
  unfolding cmp_trans_on_def
proof (intro ballI impI)
  fix a b d assume a: "a \<in> set xs" and b: "b \<in> set xs" and d: "d \<in> set xs"
    and ab: "cmp_le (SortCompare (compare_name e)) a b"
    and bd: "cmp_le (SortCompare (compare_name e)) b d"
  have ta: "to_string (title a) \<in> title_strings xs" and tb: "to_string (title b) \<in> title_strings xs"
    and td: "to_string (title d) \<in> title_strings xs"
    using a b d by (auto simp: title_strings_def)
  have "title a \<noteq> None" and "title b \<noteq> None" using t a b by blast+
  then obtain s u where s: "title a = Some s" and u: "title b = Some u"
    by (cases "title a"; cases "title b") simp_all
  have 1: "localeCompare e (to_string (title a)) (to_string (title b)) \<le> 0"
    using ab name_cmp_le [OF s] by simp
  have 2: "localeCompare e (to_string (title b)) (to_string (title d)) \<le> 0"
    using bd name_cmp_le [OF u] by simp
  have "localeCompare e (to_string (title a)) (to_string (title d)) \<le> 0"
    using c ta tb td 1 2 unfolding consistent_comparator_def by blast
  then show "cmp_le (SortCompare (compare_name e)) a d"
    using name_cmp_le [OF s] by simp
qed

lemma name_sort_returns:
  assumes t: "\<forall>img\<in>set xs. title img \<noteq> None"
  shows "\<exists>ys. array_sort (SortCompare (compare_name e)) xs = Inr ys"
proof -
  have "\<not> isl (array_sort (SortCompare (compare_name e)) xs)"
    by (rule array_sort_total) (simp add: name_never_throws t)
  then show ?thesis by (cases "array_sort (SortCompare (compare_name e)) xs") simp_all
qed

lemma sorted_by_name:
  assumes t: "\<forall>img\<in>set xs. title img \<noteq> None"
    and c: "consistent_comparator (localeCompare e) (title_strings xs)"
    and s: "array_sort (SortCompare (compare_name e)) xs = Inr ys"
  shows "titles_ascending e ys"
proof -
  have srt: "sorted_wrt (cmp_le (SortCompare (compare_name e))) ys"
    using s name_total [OF t c] name_trans [OF t c] by (rule array_sort_sorted)
  have "set ys = set xs" using s by (rule array_sort_set)
  then have ty: "\<forall>img\<in>set ys. title img \<noteq> None" using t by simp
  have "sorted_wrt (\<lambda>a b. localeCompare e (to_string (title a)) (to_string (title b)) \<le> 0) ys"
  proof (rule sorted_wrt_mono_rel [OF _ srt])
    fix a b assume a: "a \<in> set ys" and "b \<in> set ys"
      and le: "cmp_le (SortCompare (compare_name e)) a b"
    have "title a \<noteq> None" using ty a by blast
    then obtain u where "title a = Some u" by (cases "title a") simp_all
    then show "localeCompare e (to_string (title a)) (to_string (title b)) \<le> 0"
      using le name_cmp_le by simp
  qed
  then show ?thesis by (simp add: titles_ascending_def)
qed

text \<open>
  C1, as the code has it. \<^verbatim>\<open>sortImages('date')\<close> leaves the time values of \<^verbatim>\<open>dateObj\<close>
  non-increasing (newest first) whenever no \<^verbatim>\<open>dateObj\<close> is an Invalid Date, that is,
  whenever each converts to a number; \<^verbatim>\<open>sortImages('name')\<close> leaves the titles
  non-decreasing under \<^verbatim>\<open>localeCompare\<close> whenever every title is a string. In both cases
  the call returns normally and the result holds the same records. \<^verbatim>\<open>localeCompare\<close> is
  taken to be a consistent comparison on the titles, as the language standard requires.
\<close>

theorem sortImages_orders:
  "((\<forall>img\<in>set (images this). to_number (dateObj img) \<noteq> None) \<longrightarrow>
      (\<exists>that. sortImages e ''date'' this = (Normal, that) \<and> dates_non_increasing (images that)
         \<and> mset (images that) = mset (images this)))
   \<and> ((\<forall>img\<in>set (images this). title img \<noteq> None)
        \<and> consistent_comparator (localeCompare e) (title_strings (images this)) \<longrightarrow>
      (\<exists>that. sortImages e ''name'' this = (Normal, that) \<and> titles_ascending e (images that)
         \<and> mset (images that) = mset (images this)))"
proof (intro conjI impI)
  assume h: "\<forall>img\<in>set (images this). to_number (dateObj img) \<noteq> None"
  obtain ys where ys: "array_sort (SortCompare compare_date) (images this) = Inr ys"
    using date_sort_returns by blast
  have "dates_non_increasing ys" using h ys by (rule sorted_by_date)
  moreover have "mset ys = mset (images this)" using ys by (rule array_sort_mset)
  ultimately show "\<exists>that. sortImages e ''date'' this = (Normal, that) \<and> dates_non_increasing (images that)
         \<and> mset (images that) = mset (images this)"
    using sortImages_date [OF ys] by simp
next
  assume "(\<forall>img\<in>set (images this). title img \<noteq> None)
        \<and> consistent_comparator (localeCompare e) (title_strings (images this))"
  then have t: "\<forall>img\<in>set (images this). title img \<noteq> None"
    and c: "consistent_comparator (localeCompare e) (title_strings (images this))" by simp_all
  obtain ys where ys: "array_sort (SortCompare (compare_name e)) (images this) = Inr ys"
    using name_sort_returns [OF t] by blast
  have "titles_ascending e ys" using t c ys by (rule sorted_by_name)
  moreover have "mset ys = mset (images this)" using ys by (rule array_sort_mset)
  ultimately show "\<exists>that. sortImages e ''name'' this = (Normal, that) \<and> titles_ascending e (images that)
         \<and> mset (images that) = mset (images this)"
    using sortImages_name [OF ys] by simp
qed

theorem sortImages_orders_witness:
  "list_all (\<lambda>img. to_number (dateObj img) \<noteq> None) (images two_pictures)
   \<and> list_all (\<lambda>img. title img \<noteq> None) (images two_pictures)
   \<and> consistent_comparator (localeCompare offline) (title_strings (images two_pictures))
   \<and> (\<exists>that. sortImages offline ''date'' two_pictures = (Normal, that)
         \<and> dates_non_increasing (images that)
         \<and> mset (images that) = mset (images two_pictures))
   \<and> (\<exists>that. sortImages offline ''name'' two_pictures = (Normal, that)
         \<and> titles_ascending offline (images that)
         \<and> mset (images that) = mset (images two_pictures))"
proof -
  have d: "\<forall>img\<in>set (images two_pictures). to_number (dateObj img) \<noteq> None"
    by (simp add: two_pictures_def picture_def to_number_def)
  have t: "\<forall>img\<in>set (images two_pictures). title img \<noteq> None"
    by (simp add: two_pictures_def picture_def)
  have c: "consistent_comparator (localeCompare offline) (title_strings (images two_pictures))"
    unfolding two_pictures_titles by (simp add: consistent_comparator_def offline_def)
  show ?thesis
    using sortImages_orders [of two_pictures offline] d t c
    unfolding list_all_iff by blast
qed

text \<open>
  Sorting by date does not order every list. Between two dated records, a record whose
  \<^verbatim>\<open>dateObj\<close> is an Invalid Date compares as equal to both, and the older dated record
  stays before the newer one: the result is not newest first even when the Invalid Date
  is passed over. Such a list is what \<^verbatim>\<open>loadMetadata\<close> builds, and sorts by date, from a
  descriptor with an entry that has no date.
\<close>

lemma undated_descriptor_images:
  "images (snd (loadMetadata undated_descriptor (constructor ''Loading...'')))
     = images (snd (sortImages offline ''date'' invalid_date_between))"
  by code_simp

theorem sortImages_date_counterexample:
  "\<not> newest_first (images (snd (sortImages offline ''date'' invalid_date_between)))
   \<and> \<not> dates_non_increasing (images (snd (sortImages offline ''date'' invalid_date_between)))
   \<and> \<not> newest_first (images (snd (loadMetadata undated_descriptor (constructor ''Loading...''))))"
proof -
  have "\<not> newest_first (images (snd (sortImages offline ''date'' invalid_date_between)))"
    by (simp add: sortImages_def SortCompare_def compare_date_def js_minus_def to_number_def
        newest_first_def invalid_date_between_def constructor_def picture_def)
  then show ?thesis
    using dates_non_increasing_newest_first undated_descriptor_images by metis
qed



text \<open>
  C10. For a key other than \<^verbatim>\<open>date\<close> and \<^verbatim>\<open>name\<close>, \<^verbatim>\<open>sortImages\<close> returns normally and
  changes nothing but \<^verbatim>\<open>currentSort\<close>, which becomes the key. For every key, the records
  after the call are the records before it, each with all its fields, and \<^verbatim>\<open>currentSort\<close>
  is the key.
\<close>

theorem sortImages_frame:
  "(sortType \<noteq> ''date'' \<and> sortType \<noteq> ''name'' \<longrightarrow>
      sortImages e sortType this = (Normal, this\<lparr>currentSort := sortType\<rparr>))
   \<and> mset (images (snd (sortImages e sortType this))) = mset (images this)
   \<and> currentSort (snd (sortImages e sortType this)) = sortType"
proof (intro conjI impI)
  assume "sortType \<noteq> ''date'' \<and> sortType \<noteq> ''name''"
  then show "sortImages e sortType this = (Normal, this\<lparr>currentSort := sortType\<rparr>)"
    by (simp add: sortImages_other)
next
  show "mset (images (snd (sortImages e sortType this))) = mset (images this)"
    by (auto simp: sortImages_def Let_def split: sum.splits dest: array_sort_mset)
next
  show "currentSort (snd (sortImages e sortType this)) = sortType"
    by (auto simp: sortImages_def Let_def split: sum.splits)
qed

theorem sortImages_frame_witness:
  "''size'' \<noteq> ''date'' \<and> ''size'' \<noteq> ''name''
   \<and> sortImages offline ''size'' two_pictures = (Normal, two_pictures\<lparr>currentSort := ''size''\<rparr>)"
  using sortImages_frame [of "''size''" offline two_pictures] by simp

subsection \<open>Embedded dates and defaults\<close>

lemma replace_colon_map:
  "replace_all re_colon (\<lambda>m. ''-'') prev s = map (\<lambda>c. if c = CHR '':'' then CHR ''-'' else c) s"
  by (induction s arbitrary: prev) (simp_all add: re_colon_def)

lemma re_dash_time_no_colon: "CHR '':'' \<notin> set s \<Longrightarrow> re_dash_time prev s = None"
  by (auto simp: re_dash_time_def split: list.splits)

lemma replace_first_no_colon:
  "CHR '':'' \<notin> set s \<Longrightarrow> replace_first re_dash_time f prev s = s"
proof (induction s arbitrary: prev)
  case Nil
  then show ?case by simp
next
  case (Cons c cs)
  have "re_dash_time prev (c # cs) = None" using Cons.prems by (rule re_dash_time_no_colon)
  moreover have "replace_first re_dash_time f (Some c) cs = cs" using Cons by simp
  ultimately show ?case by simp
qed

lemma reformat_date_map:
  "reformat_date dateTaken = map (\<lambda>c. if c = CHR '':'' then CHR ''-'' else c) dateTaken"
proof -
  have "CHR '':'' \<notin> set (map (\<lambda>c. if c = CHR '':'' then CHR ''-'' else c) dateTaken)"
    by auto
  then show ?thesis
    unfolding reformat_date_def replace_colon_map by (rule replace_first_no_colon)
qed

text \<open>
  C3. The date is taken from the first present of \<^verbatim>\<open>DateTimeOriginal\<close>, \<^verbatim>\<open>DateTime\<close>,
  \<^verbatim>\<open>DateTimeDigitized\<close>, but the reformatting does not give the time of day its colons
  back: the first replacement turns every colon into a dash, after which the second
  pattern, which needs two colons, matches nothing. The tag \<^verbatim>\<open>2024:01:15 10:30:00\<close>
  becomes \<^verbatim>\<open>2024-01-15 10-30-00\<close>, and the \<^verbatim>\<open>Date\<close> is whatever the engine's
  \<^verbatim>\<open>Date.parse\<close> makes of that string.
\<close>

theorem reformat_date_leaves_dashes:
  "reformat_date dateTaken = map (\<lambda>c. if c = CHR '':'' then CHR ''-'' else c) dateTaken
   \<and> reformat_date ''2024:01:15 10:30:00'' = ''2024-01-15 10-30-00''
   \<and> extractImageMetadata e
        \<lparr>naturalWidth = w, naturalHeight = h,
         exif = ExifTags (no_tags\<lparr>DateTimeOriginal := Some ''2024:01:15 10:30:00''\<rparr>)\<rparr> source
      = Inr (Some \<lparr>md_dateObj = DDate (date_parse e ''2024-01-15 10-30-00''), md_title = None,
                   md_description = None, md_camera = None, md_software = None\<rparr>)"
proof (intro conjI)
  show "reformat_date dateTaken = map (\<lambda>c. if c = CHR '':'' then CHR ''-'' else c) dateTaken"
    by (rule reformat_date_map)
  show r: "reformat_date ''2024:01:15 10:30:00'' = ''2024-01-15 10-30-00''"
    by (simp add: reformat_date_map)
  show "extractImageMetadata e
        \<lparr>naturalWidth = w, naturalHeight = h,
         exif = ExifTags (no_tags\<lparr>DateTimeOriginal := Some ''2024:01:15 10:30:00''\<rparr>)\<rparr> source
      = Inr (Some \<lparr>md_dateObj = DDate (date_parse e ''2024-01-15 10-30-00''), md_title = None,
                   md_description = None, md_camera = None, md_software = None\<rparr>)"
    by (simp add: extractImageMetadata_def no_tags_def js_or_def truthy_def to_string_def
        new_Date_def r)
qed

text \<open>
  C2. The record built for an image whose tags are read and hold no date has
  \<^verbatim>\<open>dateObj = null\<close>: the literal first writes the default,
  \<^verbatim>\<open>metadata.dateObj || new Date(...)\<close>, and the \<^verbatim>\<open>...metadata\<close> that ends it then
  writes \<^verbatim>\<open>metadata.dateObj\<close>, which is \<^verbatim>\<open>null\<close>, over it. The same holds for the whole
  load pass of a listing with that one image, which returns normally.
\<close>

theorem untagged_image_has_null_date:
  "map_option dateObj
     (loadImageWithMetadata untagged_listing
        \<lparr>name = ''sketch.jpg'', sha = Some ''3f2a9c41d07be85a6c1f0e24b7d3a9e5f6081c2d''\<rparr>)
     = Some DNull
   \<and> fst (loadImages untagged_listing (constructor ''Loading...'')) = Normal
   \<and> map dateObj (images (snd (loadImages untagged_listing (constructor ''Loading...''))))
       = [DNull]"
  by code_simp

text \<open>Rendering that record then throws, in \<^verbatim>\<open>formatDate\<close>.\<close>

lemma untagged_render_throws:
  "fst (init untagged_listing (constructor ''Loading...'')) = Throw TypeError"
  by code_simp

subsection \<open>The load pass\<close>

lemma spread_filename: "filename (spread m img) = filename img"
  by (cases m) (simp_all add: spread_def)

lemma loadImageWithMetadata_None:
  "(loadImageWithMetadata e file = None) = (load_image e (''../images/'' @ name file) = None)"
  by (auto simp: loadImageWithMetadata_def Let_def split: option.splits sum.splits)

lemma loadImageWithMetadata_filename:
  "loadImageWithMetadata e file = Some img \<Longrightarrow> filename img = name file"
  by (auto simp: loadImageWithMetadata_def Let_def spread_filename split: option.splits sum.splits)

lemma loaded_filenames:
  "map filename (map the (filter (\<lambda>img. img \<noteq> None) (map (loadImageWithMetadata e) files)))
     = map name (filter (\<lambda>file. load_image e (''../images/'' @ name file) \<noteq> None) files)"
proof (induction files)
  case Nil
  then show ?case by simp
next
  case (Cons f fs)
  show ?case
  proof (cases "loadImageWithMetadata e f")
    case None
    then have "load_image e (''../images/'' @ name f) = None"
      by (simp add: loadImageWithMetadata_None)
    then show ?thesis using None Cons by simp
  next
    case (Some img)
    then have "load_image e (''../images/'' @ name f) \<noteq> None"
      using loadImageWithMetadata_None [of e f] by simp
    moreover have "filename img = name f" using Some by (rule loadImageWithMetadata_filename)
    ultimately show ?thesis using Some Cons by simp
  qed
qed

lemma loadImagesFromGitHub_listing:
  "github_contents e = Some files \<Longrightarrow>
   loadImagesFromGitHub e this =
     (Normal, this\<lparr>calls := calls this @ [LoadImagesFromGitHub],
                   images := map the (filter (\<lambda>img. img \<noteq> None)
                      (map (loadImageWithMetadata e)
                         (filter (\<lambda>file. image_file_filter (name file)) files)))\<rparr>)"
  by (simp add: loadImagesFromGitHub_def)

lemma sortImages_date_returns:
  "\<exists>ys. sortImages e ''date'' this = (Normal, this\<lparr>currentSort := ''date'', images := ys\<rparr>)
        \<and> mset ys = mset (images this)"
proof -
  obtain ys where ys: "array_sort (SortCompare compare_date) (images this) = Inr ys"
    using date_sort_returns by blast
  have "mset ys = mset (images this)" using ys by (rule array_sort_mset)
  then show ?thesis using sortImages_date [OF ys] by blast
qed

text \<open>
  C5. A directory listing of \<open>N\<close> entries gives at most \<open>N\<close> records. The records are those
  of the entries that pass the extension filter and whose image loads, in the order of
  the listing: an image that fails to load is left out and the others are kept. Sorting
  afterwards keeps the number of records.
\<close>

theorem listing_gives_at_most_N:
  assumes "github_contents e = Some files"
  shows "\<exists>that. loadImagesFromGitHub e this = (Normal, that)
           \<and> length (images that) \<le> length files
           \<and> map filename (images that)
               = map name (filter (\<lambda>file. load_image e (''../images/'' @ name file) \<noteq> None)
                             (filter (\<lambda>file. image_file_filter (name file)) files))
           \<and> (\<exists>sorted_that. loadImages e this = (Normal, sorted_that)
                 \<and> length (images sorted_that) = length (images that))"
proof -
  define imgs where "imgs = map the (filter (\<lambda>img. img \<noteq> None)
       (map (loadImageWithMetadata e) (filter (\<lambda>file. image_file_filter (name file)) files)))"
  define that where "that = this\<lparr>calls := calls this @ [LoadImagesFromGitHub], images := imgs\<rparr>"
  have l: "loadImagesFromGitHub e this = (Normal, that)"
    unfolding that_def imgs_def using assms by (rule loadImagesFromGitHub_listing)
  have "length imgs \<le> length (filter (\<lambda>file. image_file_filter (name file)) files)"
    unfolding imgs_def
    by (metis (no_types, lifting) length_filter_le length_map)
  also have "\<dots> \<le> length files" by simp
  finally have n: "length (images that) \<le> length files" by (simp add: that_def)
  have f: "map filename (images that)
      = map name (filter (\<lambda>file. load_image e (''../images/'' @ name file) \<noteq> None)
                    (filter (\<lambda>file. image_file_filter (name file)) files))"
  proof -
    have "images that = imgs" by (simp add: that_def)
    then show ?thesis unfolding imgs_def by (simp only: loaded_filenames)
  qed
  obtain ys where s: "sortImages e ''date'' that = (Normal, that\<lparr>currentSort := ''date'', images := ys\<rparr>)"
    and m: "mset ys = mset (images that)"
    using sortImages_date_returns by blast
  have "length ys = length (images that)" using m by (rule mset_eq_length)
  then have "\<exists>sorted_that. loadImages e this = (Normal, sorted_that)
                 \<and> length (images sorted_that) = length (images that)"
    using l s by (simp add: loadImages_def)
  then show ?thesis using l n f by blast
qed

theorem listing_gives_at_most_N_witness:
  "github_contents partly_loading_listing
     = Some [\<lparr>name = ''sketch.jpg'', sha = None\<rparr>, \<lparr>name = ''missing.png'', sha = None\<rparr>,
             \<lparr>name = ''notes.txt'', sha = None\<rparr>]
   \<and> (\<exists>that. loadImagesFromGitHub partly_loading_listing (constructor ''Loading...'')
                = (Normal, that)
         \<and> length (images that) \<le> 3
         \<and> map filename (images that) = [''sketch.jpg''])"
proof -
  have g: "github_contents partly_loading_listing
     = Some [\<lparr>name = ''sketch.jpg'', sha = None\<rparr>, \<lparr>name = ''missing.png'', sha = None\<rparr>,
             \<lparr>name = ''notes.txt'', sha = None\<rparr>]"
    by (simp add: partly_loading_listing_def)
  have i: "image_file_filter ''sketch.jpg''" "image_file_filter ''missing.png''"
    "\<not> image_file_filter ''notes.txt''"
    by code_simp+
  have l: "load_image partly_loading_listing ''../images/sketch.jpg'' \<noteq> None"
    "load_image partly_loading_listing ''../images/missing.png'' = None"
    by (simp_all add: partly_loading_listing_def untagged_listing_def)
  from listing_gives_at_most_N [OF g, of "constructor ''Loading...''"]
  show ?thesis using g i l by auto
qed

subsection \<open>The order of the strategies\<close>

lemma renderGallery_calls: "calls (snd (renderGallery this)) = calls this"
  by (auto simp: renderGallery_def Let_def split: prod.splits completion.splits)

lemma renderGallery_empty:
  "images this = [] \<Longrightarrow>
   renderGallery this = (Normal, this\<lparr>gallery := [], loading_text := no_artwork_text\<rparr>)"
  by (simp add: renderGallery_def no_artwork_text_def)

lemma loadImagesFromDirectory_result:
  "loadImagesFromDirectory this =
     (Normal, this\<lparr>calls := calls this @ [LoadImagesFromDirectory], images := [], gallery := [],
                   loading_text := no_artwork_text\<rparr>)"
  by (simp add: loadImagesFromDirectory_def renderGallery_empty)

text \<open>
  The descriptor cannot be used: the fetch fails, the parse fails, or the parsed document
  has no list of images.
\<close>

lemma loadMetadata_absent:
  "metadata_json e \<in> {FetchFails, ParseFails, Parsed None} \<Longrightarrow>
   loadMetadata e this =
     (Normal, this\<lparr>calls := calls this @ [LoadMetadata, LoadImagesFromDirectory], images := [],
                   gallery := [], loading_text := no_artwork_text\<rparr>)"
  by (auto simp: loadMetadata_def loadImagesFromDirectory_result)

lemma loadMetadata_present:
  assumes "metadata_json e = Parsed (Some entries)"
  shows "\<exists>ys. loadMetadata e this =
           (Normal, this\<lparr>calls := calls this @ [LoadMetadata], images := ys, currentSort := ''date''\<rparr>)
         \<and> mset ys = mset (map (image_of_raw e) entries)"
proof -
  define this1 where
    "this1 = this\<lparr>calls := calls this @ [LoadMetadata], images := map (image_of_raw e) entries\<rparr>"
  obtain ys where s: "sortImages e ''date'' this1 = (Normal, this1\<lparr>currentSort := ''date'', images := ys\<rparr>)"
    and m: "mset ys = mset (images this1)"
    using sortImages_date_returns by blast
  have "loadMetadata e this = (Normal, this1\<lparr>currentSort := ''date'', images := ys\<rparr>)"
    using assms s by (simp add: loadMetadata_def this1_def)
  moreover have "this1\<lparr>currentSort := ''date'', images := ys\<rparr>
      = this\<lparr>calls := calls this @ [LoadMetadata], images := ys, currentSort := ''date''\<rparr>"
    by (simp add: this1_def)
  moreover have "mset ys = mset (map (image_of_raw e) entries)" using m by (simp add: this1_def)
  ultimately show ?thesis by metis
qed

lemma init_metadata_calls:
  "calls (snd (init_metadata e this)) = calls (snd (loadMetadata e this))"
proof -
  obtain c1 this1 where l: "loadMetadata e this = (c1, this1)" by (cases "loadMetadata e this")
  obtain c2 this2 where r: "renderGallery this1 = (c2, this2)" by (cases "renderGallery this1")
  have "calls this2 = calls this1" using renderGallery_calls [of this1] r by simp
  then show ?thesis
    by (cases c1; cases c2) (simp_all add: init_metadata_def l r setupEventListeners_def)
qed

lemma probe_patterns_none_load:
  "\<forall>pattern\<in>set patterns. load_image e (''../images/'' @ pattern) = None \<Longrightarrow>
   probe_patterns e patterns validImages = Some validImages"
  by (induction patterns arbitrary: validImages) simp_all

text \<open>
  The log of a load pass of the listing version, whether the pass returns or a promise
  it awaits is never settled.
\<close>

lemma loadImagesFallback_calls:
  "calls (snd (loadImagesFallback e this)) = calls this @ [LoadImagesFallback]"
  by (simp add: loadImagesFallback_def Let_def showInstructions_def split: option.splits)

lemma loadImagesFromGitHub_calls:
  "calls (snd (loadImagesFromGitHub e this)) = calls this @
     (if github_contents e = None then [LoadImagesFromGitHub, LoadImagesFallback]
      else [LoadImagesFromGitHub])"
  by (simp add: loadImagesFromGitHub_def Let_def loadImagesFallback_calls split: option.splits)

lemma sortImages_calls: "calls (snd (sortImages e sortType this)) = calls this"
  by (auto simp: sortImages_def Let_def split: sum.splits)

lemma loadImages_calls:
  "calls (snd (loadImages e this)) = calls (snd (loadImagesFromGitHub e this))"
proof -
  obtain c1 this1 where l: "loadImagesFromGitHub e this = (c1, this1)"
    by (cases "loadImagesFromGitHub e this")
  show ?thesis by (cases c1) (simp_all add: loadImages_def l sortImages_calls)
qed

lemma init_calls: "calls (snd (init e this)) = calls (snd (loadImages e this))"
proof -
  obtain c1 this1 where l: "loadImages e this = (c1, this1)" by (cases "loadImages e this")
  obtain c2 this2 where r: "renderGallery this1 = (c2, this2)" by (cases "renderGallery this1")
  have "calls this2 = calls this1" using renderGallery_calls [of this1] r by simp
  then show ?thesis
    by (cases c1; cases c2) (simp_all add: init_def l r setupEventListeners_def)
qed

lemma renderGallery_images: "images (snd (renderGallery this)) = images this"
  by (auto simp: renderGallery_def Let_def split: prod.splits completion.splits)

lemma init_metadata_empty:
  assumes "metadata_json e \<in> {FetchFails, ParseFails, Parsed None}"
  shows "init_metadata e this =
     (Normal, this\<lparr>calls := calls this @ [LoadMetadata, LoadImagesFromDirectory], images := [],
                   gallery := [], loading_text := no_artwork_text, listening := True\<rparr>)"
  by (simp add: init_metadata_def loadMetadata_absent [OF assms] renderGallery_empty
      setupEventListeners_def)

text \<open>
  C4, as the code has it. Each version tries its strategies in a fixed order, and the log
  of the methods entered shows it, for \<^verbatim>\<open>init\<close> as a whole. In the version that reads the
  static descriptor: when the descriptor is fetched and parsed and holds a list of image
  entries, \<^verbatim>\<open>loadMetadata\<close> is the only acquiring method entered, so neither a directory
  strategy nor probing is invoked; in every other case (the fetch fails, the parse fails,
  or the parsed document has no list of images) the placeholder
  \<^verbatim>\<open>loadImagesFromDirectory\<close> is entered next and nothing else, so no listing is requested
  and no name is probed, and the collection is left empty. In the version that lists the
  directory, which has no descriptor step: \<^verbatim>\<open>loadImagesFromGitHub\<close> is entered first in
  every load pass, also in one that never completes, and the probing of
  \<^verbatim>\<open>loadImagesFallback\<close> only after it and only when the listing has failed.
\<close>

theorem fallback_chain_order:
  "(metadata_json e = Parsed (Some entries) \<longrightarrow>
      calls (snd (loadMetadata e this)) = calls this @ [LoadMetadata]
      \<and> calls (snd (init_metadata e this)) = calls this @ [LoadMetadata])
   \<and> (metadata_json e \<in> {FetchFails, ParseFails, Parsed None} \<longrightarrow>
        calls (snd (loadMetadata e this)) = calls this @ [LoadMetadata, LoadImagesFromDirectory]
        \<and> calls (snd (init_metadata e this)) = calls this @ [LoadMetadata, LoadImagesFromDirectory]
        \<and> images (snd (init_metadata e this)) = [])
   \<and> calls (snd (loadImages e this)) = calls this @
        (if github_contents e = None then [LoadImagesFromGitHub, LoadImagesFallback]
         else [LoadImagesFromGitHub])
   \<and> calls (snd (init e this)) = calls this @
        (if github_contents e = None then [LoadImagesFromGitHub, LoadImagesFallback]
         else [LoadImagesFromGitHub])"
proof (intro conjI impI)
  assume p: "metadata_json e = Parsed (Some entries)"
  from loadMetadata_present [OF p, of this]
  show l: "calls (snd (loadMetadata e this)) = calls this @ [LoadMetadata]" by auto
  show "calls (snd (init_metadata e this)) = calls this @ [LoadMetadata]"
    unfolding init_metadata_calls by (rule l)
next
  assume a: "metadata_json e \<in> {FetchFails, ParseFails, Parsed None}"
  show "calls (snd (loadMetadata e this)) = calls this @ [LoadMetadata, LoadImagesFromDirectory]"
    by (simp add: loadMetadata_absent [OF a])
  show "calls (snd (init_metadata e this)) = calls this @ [LoadMetadata, LoadImagesFromDirectory]"
    by (simp add: init_metadata_empty [OF a])
  show "images (snd (init_metadata e this)) = []"
    by (simp add: init_metadata_empty [OF a])
next
  show "calls (snd (loadImages e this)) = calls this @
        (if github_contents e = None then [LoadImagesFromGitHub, LoadImagesFallback]
         else [LoadImagesFromGitHub])"
    unfolding loadImages_calls by (rule loadImagesFromGitHub_calls)
next
  show "calls (snd (init e this)) = calls this @
        (if github_contents e = None then [LoadImagesFromGitHub, LoadImagesFallback]
         else [LoadImagesFromGitHub])"
    unfolding init_calls loadImages_calls by (rule loadImagesFromGitHub_calls)
qed

text \<open>
  Four passes: a descriptor with one entry; a descriptor that cannot be fetched; the
  document \<^verbatim>\<open>{}\<close>, which is fetched and parsed and after which the placeholder is entered
  all the same; and a pass of the listing version that never completes, because the
  tags of the first candidate cannot be read, with its two methods entered in order.
\<close>

theorem fallback_chain_order_witness:
  "metadata_json with_descriptor
     = Parsed (Some [\<lparr>raw_filename = ''fox.jpg'', raw_title = Some ''Fox'',
                      raw_date = Some ''2024-01-01''\<rparr>])
   \<and> calls (snd (init_metadata with_descriptor (constructor ''Loading...''))) = [LoadMetadata]
   \<and> metadata_json offline \<in> {FetchFails, ParseFails, Parsed None}
   \<and> calls (snd (init_metadata offline (constructor ''Loading...'')))
       = [LoadMetadata, LoadImagesFromDirectory]
   \<and> images (snd (init_metadata offline (constructor ''Loading...''))) = []
   \<and> metadata_json empty_document = Parsed None
   \<and> calls (snd (init_metadata empty_document (constructor ''Loading...'')))
       = [LoadMetadata, LoadImagesFromDirectory]
   \<and> images (snd (init_metadata empty_document (constructor ''Loading...''))) = []
   \<and> github_contents unreadable_tags = None
   \<and> fst (init unreadable_tags (constructor ''Loading...'')) = Pending
   \<and> calls (snd (init unreadable_tags (constructor ''Loading...'')))
       = [LoadImagesFromGitHub, LoadImagesFallback]"
proof -
  have d: "metadata_json with_descriptor
     = Parsed (Some [\<lparr>raw_filename = ''fox.jpg'', raw_title = Some ''Fox'',
                      raw_date = Some ''2024-01-01''\<rparr>])"
    by (simp add: with_descriptor_def offline_def)
  have o: "metadata_json offline \<in> {FetchFails, ParseFails, Parsed None}"
    by (simp add: offline_def)
  have n: "metadata_json empty_document = Parsed None"
    by (simp add: empty_document_def offline_def)
  have g: "github_contents unreadable_tags = None"
    by (simp add: unreadable_tags_def offline_def)
  have p: "fst (init unreadable_tags (constructor ''Loading...'')) = Pending"
    by code_simp
  have c0: "calls (constructor ''Loading...'') = []" by (simp add: constructor_def)
  have 1: "calls (snd (init_metadata with_descriptor (constructor ''Loading...''))) = [LoadMetadata]"
    using fallback_chain_order [of with_descriptor
          "[\<lparr>raw_filename = ''fox.jpg'', raw_title = Some ''Fox'', raw_date = Some ''2024-01-01''\<rparr>]"
          "constructor ''Loading...''"] d
    unfolding c0 append_Nil by blast
  have 2: "calls (snd (init_metadata offline (constructor ''Loading...'')))
       = [LoadMetadata, LoadImagesFromDirectory]
     \<and> images (snd (init_metadata offline (constructor ''Loading...''))) = []"
    using fallback_chain_order [of offline "[]" "constructor ''Loading...''"] o
    unfolding c0 append_Nil by blast
  have 3: "calls (snd (init_metadata empty_document (constructor ''Loading...'')))
       = [LoadMetadata, LoadImagesFromDirectory]
     \<and> images (snd (init_metadata empty_document (constructor ''Loading...''))) = []"
    using fallback_chain_order [of empty_document "[]" "constructor ''Loading...''"] n
    unfolding c0 append_Nil by blast
  have 4: "calls (snd (init unreadable_tags (constructor ''Loading...'')))
       = [LoadImagesFromGitHub, LoadImagesFallback]"
    using fallback_chain_order [of unreadable_tags "[]" "constructor ''Loading...''"]
    by (simp add: g c0)
  show ?thesis using d o n g p 1 2 3 4 by blast
qed

text \<open>
  When the descriptor cannot be fetched, nothing is listed and nothing is probed:
  \<^verbatim>\<open>loadImagesFromDirectory\<close> is a placeholder that consults nothing outside the object,
  empties the collection and renders it. No directory-listing strategy is attempted
  before any probing.
\<close>

theorem descriptor_failure_lists_nothing:
  "metadata_json offline = FetchFails
   \<and> calls (snd (init_metadata offline (constructor ''Loading...'')))
       = [LoadMetadata, LoadImagesFromDirectory]
   \<and> LoadImagesFromGitHub \<notin> set (calls (snd (init_metadata offline (constructor ''Loading...''))))
   \<and> LoadImagesFallback \<notin> set (calls (snd (init_metadata offline (constructor ''Loading...''))))
   \<and> images (snd (init_metadata offline (constructor ''Loading...''))) = []"
  by code_simp

subsection \<open>The empty gallery\<close>

lemma loadImagesFallback_empty:
  assumes "\<forall>pattern\<in>set commonPatterns. load_image e (''../images/'' @ pattern) = None"
  shows "loadImagesFallback e this =
     (Normal, this\<lparr>calls := calls this @ [LoadImagesFallback], images := [],
                   gallery := [Instructions]\<rparr>)"
proof -
  have "probe_patterns e commonPatterns [] = Some []"
    using assms by (rule probe_patterns_none_load)
  then show ?thesis by (simp add: loadImagesFallback_def showInstructions_def)
qed

lemma sortImages_date_empty:
  "images this = [] \<Longrightarrow> sortImages e ''date'' this = (Normal, this\<lparr>currentSort := ''date''\<rparr>)"
  by (simp add: sortImages_def)

lemma init_empty:
  assumes g: "github_contents e = None"
    and p: "\<forall>pattern\<in>set commonPatterns. load_image e (''../images/'' @ pattern) = None"
  shows "init e this =
     (Normal, this\<lparr>calls := calls this @ [LoadImagesFromGitHub, LoadImagesFallback],
                   images := [], currentSort := ''date'', gallery := [],
                   loading_text := no_artwork_text, listening := True\<rparr>)"
proof -
  have "loadImagesFromGitHub e this =
      (Normal, this\<lparr>calls := calls this @ [LoadImagesFromGitHub, LoadImagesFallback],
                    images := [], gallery := [Instructions]\<rparr>)"
    using g by (simp add: loadImagesFromGitHub_def loadImagesFallback_empty [OF p])
  then have "loadImages e this =
      (Normal, this\<lparr>calls := calls this @ [LoadImagesFromGitHub, LoadImagesFallback],
                    images := [], gallery := [Instructions], currentSort := ''date''\<rparr>)"
    by (simp add: loadImages_def sortImages_date_empty)
  then show ?thesis
    by (simp add: init_def renderGallery_empty setupEventListeners_def)
qed

text \<open>
  With an empty collection \<^verbatim>\<open>renderGallery\<close> returns normally, leaves the gallery without
  cards and writes the no-artwork text. When the sources are exhausted (in the first
  version the descriptor cannot be used; in the second the listing fails and no candidate
  name loads), \<^verbatim>\<open>init\<close> returns normally with an empty collection, no cards and that
  text; the panel of \<^verbatim>\<open>showInstructions\<close> is cleared again by the rendering that follows.
\<close>

lemma exhausted_sources_show_no_artwork:
  "(images this = [] \<longrightarrow>
      renderGallery this = (Normal, this\<lparr>gallery := [], loading_text := no_artwork_text\<rparr>))
   \<and> (metadata_json e \<in> {FetchFails, ParseFails, Parsed None} \<longrightarrow>
        (\<exists>that. init_metadata e this = (Normal, that) \<and> images that = [] \<and> gallery that = []
           \<and> loading_text that = no_artwork_text))
   \<and> (github_contents e = None
        \<and> (\<forall>pattern\<in>set commonPatterns. load_image e (''../images/'' @ pattern) = None) \<longrightarrow>
        (\<exists>that. init e this = (Normal, that) \<and> images that = [] \<and> gallery that = []
           \<and> loading_text that = no_artwork_text))"
proof (intro conjI impI)
  assume "images this = []"
  then show "renderGallery this = (Normal, this\<lparr>gallery := [], loading_text := no_artwork_text\<rparr>)"
    by (rule renderGallery_empty)
next
  assume "metadata_json e \<in> {FetchFails, ParseFails, Parsed None}"
  then show "\<exists>that. init_metadata e this = (Normal, that) \<and> images that = [] \<and> gallery that = []
           \<and> loading_text that = no_artwork_text"
    by (simp add: init_metadata_empty)
next
  assume "github_contents e = None
        \<and> (\<forall>pattern\<in>set commonPatterns. load_image e (''../images/'' @ pattern) = None)"
  then have g: "github_contents e = None"
    and p: "\<forall>pattern\<in>set commonPatterns. load_image e (''../images/'' @ pattern) = None"
    by blast+
  show "\<exists>that. init e this = (Normal, that) \<and> images that = [] \<and> gallery that = []
           \<and> loading_text that = no_artwork_text"
    by (simp add: init_empty [OF g p])
qed

text \<open>
  C6. An empty gallery with the no-artwork text is not the worst outcome of a load pass,
  and a pass can end in an error that nothing catches. For a listing with one image that
  loads and whose tags hold no date, the load pass returns a record with
  \<^verbatim>\<open>dateObj = null\<close>; \<^verbatim>\<open>renderGallery\<close> clears the gallery and throws a \<^verbatim>\<open>TypeError\<close> in
  \<^verbatim>\<open>formatDate\<close> before the first card is appended, and \<^verbatim>\<open>init\<close>, which has no \<^verbatim>\<open>catch\<close>
  and whose promise the constructor drops, ends with that exception. The page is left
  with one record in the collection, no card, the untouched text of \<^verbatim>\<open>#loading\<close> still
  shown, and no event listener set up.
\<close>

theorem load_pass_ends_in_TypeError:
  "fst (init untagged_listing (constructor ''Loading...'')) = Throw TypeError
   \<and> map filename (images (snd (init untagged_listing (constructor ''Loading...''))))
       = [''sketch.jpg'']
   \<and> map dateObj (images (snd (init untagged_listing (constructor ''Loading...'')))) = [DNull]
   \<and> gallery (snd (init untagged_listing (constructor ''Loading...''))) = []
   \<and> loading_text (snd (init untagged_listing (constructor ''Loading...''))) = ''Loading...''
   \<and> loading_text (snd (init untagged_listing (constructor ''Loading...''))) \<noteq> no_artwork_text
   \<and> loading_hidden (snd (init untagged_listing (constructor ''Loading...''))) = False
   \<and> listening (snd (init untagged_listing (constructor ''Loading...''))) = False"
  by code_simp

end
